theory Spec2Isabelle
  imports Main
begin

section \<open>The blog application of \<^verbatim>\<open>main.py\<close>\<close>

text \<open>
  The program is a Flask application over three SQLAlchemy tables stored in SQLite, with
  flask-login sessions. The embedding keeps the three tables as lists of rows in storage
  order, the client's signed session cookie as a record, and every request handler as a
  function from the request context (tables and the caller's session) to a response and the
  new context. An exception that leaves a handler (\<^verbatim>\<open>abort\<close>, \<^verbatim>\<open>get_or_404\<close>, an
  \<^verbatim>\<open>IntegrityError\<close> at commit) is a response value, and the context it leaves behind is the
  one the request started with: nothing was committed and the session was not written.
\<close>

subsection \<open>Tables\<close>

text \<open>
  The columns of \<^verbatim>\<open>User\<close>, \<^verbatim>\<open>BlogPost\<close> and \<^verbatim>\<open>Comment\<close>. Primary keys are
  SQLite row ids (natural numbers here). The two foreign-key columns of a comment and the one
  of a post are declared without \<^verbatim>\<open>nullable=False\<close>, so they hold an id or NULL.
\<close>

record user =
  u_id :: nat
  u_name :: string
  u_email :: string
  u_password :: string

record blog_post =
  p_id :: nat
  p_author_id :: "nat option"
  p_title :: string
  p_subtitle :: string
  p_date :: string
  p_body :: string
  p_img_url :: string

record comment =
  c_id :: nat
  c_author_id :: "nat option"
  c_post_id :: "nat option"
  c_text :: string

record database =
  users :: "user list"
  blog_posts :: "blog_post list"
  comments :: "comment list"

definition empty_database :: database where
  "empty_database = \<lparr>users = [], blog_posts = [], comments = []\<rparr>"

subsection \<open>Sessions, responses and the request context\<close>

text \<open>
  The session cookie holds flask-login's \<^verbatim>\<open>_user_id\<close> and Flask's list of flashed
  messages. A response is a redirect to an endpoint, a rendered template with the values the
  handler passes to it, an \<^verbatim>\<open>abort\<close> with its status code, or the server error of an
  exception nobody catches.
\<close>

record session =
  s_user_id :: "nat option"
  s_flashes :: "string list"

definition new_session :: session where
  "new_session = \<lparr>s_user_id = None, s_flashes = []\<rparr>"

datatype endpoint = EP_login | EP_get_all_posts | EP_show_post nat

datatype page =
    Register_html
  | Login_html
  | Index_html "blog_post list"
  | Post_html blog_post "comment list"
  | Make_post_html bool
  | About_html
  | Contact_html

datatype response =
    Redirect endpoint
  | Render page
  | Abort nat
  | Internal_server_error

record ctx =
  db :: database
  sess :: session

type_synonym handler = "ctx \<Rightarrow> response \<times> ctx"

subsection \<open>What the handlers take from outside\<close>

text \<open>
  The form classes live in \<^verbatim>\<open>forms.py\<close>, which is not part of the sources at hand, so
  \<^verbatim>\<open>validate_on_submit()\<close> is a parameter of each handler: \<open>None\<close> when the request is a
  GET or the submission does not validate, \<open>Some\<close> of the submitted field values when it
  does. The password hasher of werkzeug is a pair of functions taken as a parameter too; the
  salt it draws and the calendar date of \<^verbatim>\<open>date.today()\<close> are inputs of the request.

  Flask writes no session and Flask-WTF validates no form without a secret key, so a
  validated form and a logged-in session both presuppose that the application was started
  with one; the handlers are modelled for that case. The templates are not among the sources
  either: a rendered page is the template's name with the values the handler passes to it,
  and the flashed messages stay in the session until a template shows them.
\<close>

record register_form =
  rf_name :: string
  rf_email :: string
  rf_password :: string

record login_form =
  lf_email :: string
  lf_password :: string

record create_post_form =
  pf_title :: string
  pf_subtitle :: string
  pf_img_url :: string
  pf_body :: string

record hasher =
  generate_password_hash :: "string \<Rightarrow> string \<Rightarrow> string"
  check_password_hash :: "string \<Rightarrow> string \<Rightarrow> bool"

subsection \<open>Startup\<close>

text \<open>
  Lines 17 and 18: the application object is created and its \<^verbatim>\<open>SECRET_KEY\<close> is
  \<^verbatim>\<open>os.environ.get("FLASK_KEY")\<close>, which is \<^verbatim>\<open>None\<close> for a variable that is not set.
  Startup is a function of the environment that may fail or yield the configuration.
\<close>

datatype startup_error = Missing_secret_key

record config =
  secret_key :: "string option"
  sqlalchemy_database_uri :: string

definition startup :: "(string \<rightharpoonup> string) \<Rightarrow> startup_error + config" where
  "startup environ =
     Inr \<lparr>secret_key = environ ''FLASK_KEY'',
          sqlalchemy_database_uri = ''sqlite:///posts.db''\<rparr>"

subsection \<open>Storage operations\<close>

text \<open>
  \<^verbatim>\<open>db.get_or_404(Model, id)\<close> returns the row with that primary key or aborts with 404.
  SQLite gives a new row of an \<^verbatim>\<open>INTEGER PRIMARY KEY\<close> table the largest row id in the
  table plus one, and 1 in an empty table. A commit that would break a \<^verbatim>\<open>unique=True\<close>
  column raises \<^verbatim>\<open>IntegrityError\<close>, which no handler catches.
\<close>

definition get_or_404 :: "('a \<Rightarrow> nat) \<Rightarrow> 'a list \<Rightarrow> nat \<Rightarrow> response + 'a" where
  "get_or_404 key rows i =
     (case find (\<lambda>r. key r = i) rows of
        None \<Rightarrow> Inl (Abort 404)
      | Some r \<Rightarrow> Inr r)"

definition next_id :: "nat list \<Rightarrow> nat" where
  "next_id ids = fold max ids 0 + 1"

definition select_user_by_email :: "database \<Rightarrow> string \<Rightarrow> user option" where
  "select_user_by_email d e = find (\<lambda>u. u_email u = e) (users d)"

definition add_user :: "database \<Rightarrow> string \<Rightarrow> string \<Rightarrow> string \<Rightarrow> response + user \<times> database" where
  "add_user d n e pw =
     (if e \<in> set (map u_email (users d)) then Inl Internal_server_error
      else
        let new_user = \<lparr>u_id = next_id (map u_id (users d)), u_name = n, u_email = e,
                         u_password = pw\<rparr>
        in Inr (new_user, d\<lparr>users := users d @ [new_user]\<rparr>))"

definition add_blog_post ::
  "database \<Rightarrow> nat option \<Rightarrow> string \<Rightarrow> string \<Rightarrow> string \<Rightarrow> string \<Rightarrow> string
     \<Rightarrow> response + blog_post \<times> database" where
  "add_blog_post d author t st dt b img =
     (if t \<in> set (map p_title (blog_posts d)) then Inl Internal_server_error
      else
        let new_post = \<lparr>p_id = next_id (map p_id (blog_posts d)), p_author_id = author,
                         p_title = t, p_subtitle = st, p_date = dt, p_body = b,
                         p_img_url = img\<rparr>
        in Inr (new_post, d\<lparr>blog_posts := blog_posts d @ [new_post]\<rparr>))"

definition update_blog_post :: "database \<Rightarrow> blog_post \<Rightarrow> response + database" where
  "update_blog_post d p =
     (if \<exists>q \<in> set (blog_posts d). p_id q \<noteq> p_id p \<and> p_title q = p_title p
      then Inl Internal_server_error
      else Inr (d\<lparr>blog_posts := map (\<lambda>q. if p_id q = p_id p then p else q) (blog_posts d)\<rparr>))"

definition add_comment :: "database \<Rightarrow> nat option \<Rightarrow> nat option \<Rightarrow> string \<Rightarrow> comment \<times> database" where
  "add_comment d author post t =
     (let new_comment = \<lparr>c_id = next_id (map c_id (comments d)), c_author_id = author,
                          c_post_id = post, c_text = t\<rparr>
      in (new_comment, d\<lparr>comments := comments d @ [new_comment]\<rparr>))"

text \<open>
  \<^verbatim>\<open>db.session.delete(post)\<close> followed by the commit. The relationship
  \<^verbatim>\<open>BlogPost.comments\<close> is declared without a delete cascade, so SQLAlchemy deletes the
  post's row and sets \<^verbatim>\<open>post_id\<close> of the comments in that collection to NULL; the comment
  rows stay.
\<close>

definition delete_blog_post :: "database \<Rightarrow> blog_post \<Rightarrow> database" where
  "delete_blog_post d p =
     d\<lparr>blog_posts := filter (\<lambda>q. p_id q \<noteq> p_id p) (blog_posts d),
       comments := map (\<lambda>cm. if c_post_id cm = Some (p_id p) then cm\<lparr>c_post_id := None\<rparr> else cm)
                       (comments d)\<rparr>"

subsection \<open>The session manager\<close>

text \<open>
  \<^verbatim>\<open>load_user\<close> is the user loader; \<^verbatim>\<open>current_user\<close> is the anonymous user (\<open>None\<close>)
  when the session holds no id, and otherwise what the loader returns, so an id that no longer
  resolves ends the request with 404.
\<close>

definition load_user :: "database \<Rightarrow> nat \<Rightarrow> response + user" where
  "load_user d user_id = get_or_404 u_id (users d) user_id"

definition current_user :: "ctx \<Rightarrow> response + user option" where
  "current_user c =
     (case s_user_id (sess c) of
        None \<Rightarrow> Inr None
      | Some user_id \<Rightarrow>
          (case load_user (db c) user_id of
             Inl e \<Rightarrow> Inl e
           | Inr u \<Rightarrow> Inr (Some u)))"

definition login_user :: "user \<Rightarrow> ctx \<Rightarrow> ctx" where
  "login_user u c = c\<lparr>sess := (sess c)\<lparr>s_user_id := Some (u_id u)\<rparr>\<rparr>"

definition logout_user :: "ctx \<Rightarrow> ctx" where
  "logout_user c = c\<lparr>sess := (sess c)\<lparr>s_user_id := None\<rparr>\<rparr>"

definition flash :: "string \<Rightarrow> ctx \<Rightarrow> ctx" where
  "flash message c = c\<lparr>sess := (sess c)\<lparr>s_flashes := s_flashes (sess c) @ [message]\<rparr>\<rparr>"

definition check_password :: "hasher \<Rightarrow> user \<Rightarrow> string \<Rightarrow> bool" where
  "check_password H u password = check_password_hash H (u_password u) password"

subsection \<open>The date of a new post\<close>

text \<open>
  \<^verbatim>\<open>date.today().strftime("%B %d, %Y")\<close>: the full English month name, the day of the
  month as a decimal number padded with a zero to two places, a comma, and the year as a
  decimal number. A Python date has one of twelve months, so the month is a datatype.
\<close>

datatype month =
  January | February | March | April | May | June | July | August | September | October
  | November | December

record date =
  year :: nat
  month_of :: month
  day :: nat

fun month_name :: "month \<Rightarrow> string" where
  "month_name January = ''January''"
| "month_name February = ''February''"
| "month_name March = ''March''"
| "month_name April = ''April''"
| "month_name May = ''May''"
| "month_name June = ''June''"
| "month_name July = ''July''"
| "month_name August = ''August''"
| "month_name September = ''September''"
| "month_name October = ''October''"
| "month_name November = ''November''"
| "month_name December = ''December''"

definition digit :: "nat \<Rightarrow> char" where
  "digit n = ''0123456789'' ! n"

fun decimal :: "nat \<Rightarrow> string" where
  "decimal n = (if n < 10 then [digit n] else decimal (n div 10) @ [digit (n mod 10)])"

declare decimal.simps [simp del]

definition zero_padded :: "nat \<Rightarrow> string \<Rightarrow> string" where
  "zero_padded w s = replicate (w - length s) (CHR ''0'') @ s"

definition strftime_B_d_Y :: "date \<Rightarrow> string" where
  "strftime_B_d_Y d =
     month_name (month_of d) @ '' '' @ zero_padded 2 (decimal (day d)) @ '', ''
       @ decimal (year d)"

subsection \<open>The access control guard\<close>

text \<open>
  \<^verbatim>\<open>admin_only\<close> (lines 117 to 126) wraps a handler: an anonymous caller and a caller whose
  id is not 1 get \<^verbatim>\<open>abort(code=403)\<close>; otherwise the wrapped handler runs.
\<close>

definition admin_only :: "handler \<Rightarrow> handler" where
  "admin_only function c =
     (case current_user c of
        Inl e \<Rightarrow> (e, c)
      | Inr None \<Rightarrow> (Abort 403, c)
      | Inr (Some u) \<Rightarrow> if u_id u \<noteq> 1 then (Abort 403, c) else function c)"

subsection \<open>Request handlers\<close>

definition register :: "hasher \<Rightarrow> string \<Rightarrow> register_form option \<Rightarrow> handler" where
  "register H salt register_form c =
     (case register_form of
        None \<Rightarrow> (Render Register_html, c)
      | Some f \<Rightarrow>
          if select_user_by_email (db c) (rf_email f) \<noteq> None
          then (Redirect EP_login,
                flash ''You've signed up with this email, log in instead!'' c)
          else
            let hashed_password = generate_password_hash H salt (rf_password f)
            in (case add_user (db c) (rf_name f) (rf_email f) hashed_password of
                  Inl e \<Rightarrow> (e, c)
                | Inr (new_user, d) \<Rightarrow>
                    (Redirect EP_get_all_posts, login_user new_user (c\<lparr>db := d\<rparr>))))"

definition login :: "hasher \<Rightarrow> login_form option \<Rightarrow> handler" where
  "login H login_form c =
     (case login_form of
        None \<Rightarrow> (Render Login_html, c)
      | Some f \<Rightarrow>
          (case select_user_by_email (db c) (lf_email f) of
             None \<Rightarrow>
               (Redirect EP_login, flash ''That email does not exist, please try again.'' c)
           | Some entered_user \<Rightarrow>
               if check_password H entered_user (lf_password f)
               then (Redirect EP_get_all_posts, login_user entered_user c)
               else (Redirect EP_login, flash ''Incorrect password, please try again.'' c)))"

definition logout :: handler where
  "logout c = (Redirect EP_get_all_posts, logout_user c)"

definition get_all_posts :: handler where
  "get_all_posts c = (Render (Index_html (blog_posts (db c))), c)"

text \<open>
  \<^verbatim>\<open>show_post\<close> loads the post first. With a valid comment it asks for the current user:
  the anonymous caller is sent to the login page, the authenticated one gets a comment row
  with his id and the post's id.
\<close>

definition show_post :: "nat \<Rightarrow> string option \<Rightarrow> handler" where
  "show_post post_id comment_form c =
     (case get_or_404 p_id (blog_posts (db c)) post_id of
        Inl e \<Rightarrow> (e, c)
      | Inr requested_post \<Rightarrow>
          (case comment_form of
             Some comment_text \<Rightarrow>
               (case current_user c of
                  Inl e \<Rightarrow> (e, c)
                | Inr None \<Rightarrow>
                    (Redirect EP_login,
                     flash ''Please log in to live comments on blog posts!'' c)
                | Inr (Some u) \<Rightarrow>
                    (Redirect (EP_show_post post_id),
                     c\<lparr>db := snd (add_comment (db c) (Some (u_id u)) (Some post_id)
                                     comment_text)\<rparr>))
           | None \<Rightarrow>
               (Render (Post_html requested_post
                          (filter (\<lambda>cm. c_post_id cm = Some post_id) (comments (db c)))),
                c)))"

text \<open>
  The bodies of the three admin routes. \<^verbatim>\<open>author=current_user\<close> needs a user row: the
  anonymous user is not a mapped object, and assigning it raises inside SQLAlchemy.
\<close>

definition add_new_post_body :: "date \<Rightarrow> create_post_form option \<Rightarrow> handler" where
  "add_new_post_body today form c =
     (case form of
        None \<Rightarrow> (Render (Make_post_html False), c)
      | Some f \<Rightarrow>
          (case current_user c of
             Inl e \<Rightarrow> (e, c)
           | Inr None \<Rightarrow> (Internal_server_error, c)
           | Inr (Some u) \<Rightarrow>
               (case add_blog_post (db c) (Some (u_id u)) (pf_title f) (pf_subtitle f)
                       (strftime_B_d_Y today) (pf_body f) (pf_img_url f) of
                  Inl e \<Rightarrow> (e, c)
                | Inr (new_post, d) \<Rightarrow> (Redirect EP_get_all_posts, c\<lparr>db := d\<rparr>))))"

definition edit_post_body :: "nat \<Rightarrow> create_post_form option \<Rightarrow> handler" where
  "edit_post_body post_id edit_form c =
     (case get_or_404 p_id (blog_posts (db c)) post_id of
        Inl e \<Rightarrow> (e, c)
      | Inr post \<Rightarrow>
          (case edit_form of
             None \<Rightarrow> (Render (Make_post_html True), c)
           | Some f \<Rightarrow>
               (case current_user c of
                  Inl e \<Rightarrow> (e, c)
                | Inr None \<Rightarrow> (Internal_server_error, c)
                | Inr (Some u) \<Rightarrow>
                    (case update_blog_post (db c)
                            (post\<lparr>p_title := pf_title f, p_subtitle := pf_subtitle f,
                                  p_img_url := pf_img_url f, p_author_id := Some (u_id u),
                                  p_body := pf_body f\<rparr>) of
                       Inl e \<Rightarrow> (e, c)
                     | Inr d \<Rightarrow> (Redirect (EP_show_post (p_id post)), c\<lparr>db := d\<rparr>)))))"

definition delete_post_body :: "nat \<Rightarrow> handler" where
  "delete_post_body post_id c =
     (case get_or_404 p_id (blog_posts (db c)) post_id of
        Inl e \<Rightarrow> (e, c)
      | Inr post_to_delete \<Rightarrow>
          (Redirect EP_get_all_posts, c\<lparr>db := delete_blog_post (db c) post_to_delete\<rparr>))"

definition add_new_post :: "date \<Rightarrow> create_post_form option \<Rightarrow> handler" where
  "add_new_post today form = admin_only (add_new_post_body today form)"

definition edit_post :: "nat \<Rightarrow> create_post_form option \<Rightarrow> handler" where
  "edit_post post_id edit_form = admin_only (edit_post_body post_id edit_form)"

definition delete_post :: "nat \<Rightarrow> handler" where
  "delete_post post_id = admin_only (delete_post_body post_id)"

definition about :: handler where
  "about c = (Render About_html, c)"

definition contact :: handler where
  "contact c = (Render Contact_html, c)"

subsection \<open>Routes and reachable states\<close>

text \<open>
  The route table of the \<^verbatim>\<open>@app.route\<close> decorators. The server holds one database and
  every client its own session cookie; a step of the system takes a request of one client,
  runs its handler on the database and that client's session, and stores both back. The
  system starts with the empty tables of \<^verbatim>\<open>db.create_all()\<close> and fresh sessions.
\<close>

datatype request =
    Req_register string "register_form option"
  | Req_login "login_form option"
  | Req_logout
  | Req_get_all_posts
  | Req_show_post nat "string option"
  | Req_add_new_post date "create_post_form option"
  | Req_edit_post nat "create_post_form option"
  | Req_delete_post nat
  | Req_about
  | Req_contact

fun route :: "hasher \<Rightarrow> request \<Rightarrow> handler" where
  "route H (Req_register salt f) = register H salt f"
| "route H (Req_login f) = login H f"
| "route H Req_logout = logout"
| "route H Req_get_all_posts = get_all_posts"
| "route H (Req_show_post post_id f) = show_post post_id f"
| "route H (Req_add_new_post today f) = add_new_post today f"
| "route H (Req_edit_post post_id f) = edit_post post_id f"
| "route H (Req_delete_post post_id) = delete_post post_id"
| "route H Req_about = about"
| "route H Req_contact = contact"

record world =
  w_db :: database
  w_sessions :: "nat \<Rightarrow> session"

definition initial_world :: world where
  "initial_world = \<lparr>w_db = empty_database, w_sessions = (\<lambda>client. new_session)\<rparr>"

definition serve :: "hasher \<Rightarrow> nat \<Rightarrow> request \<Rightarrow> world \<Rightarrow> response \<times> world" where
  "serve H client r w =
     (case route H r \<lparr>db = w_db w, sess = w_sessions w client\<rparr> of
        (resp, c) \<Rightarrow> (resp, \<lparr>w_db = db c, w_sessions = (w_sessions w)(client := sess c)\<rparr>))"

inductive reachable :: "hasher \<Rightarrow> world \<Rightarrow> bool" for H :: hasher where
  reachable_initial: "reachable H initial_world"
| reachable_serve: "reachable H w \<Longrightarrow> reachable H (snd (serve H client r w))"

subsection \<open>Properties of states\<close>

text \<open>
  A user id is live in a database when a row of \<^verbatim>\<open>users\<close> has it, a post id when a row
  of \<^verbatim>\<open>blog_posts\<close> has it. \<open>references_live\<close> is the referential invariant in the
  words of the specification: every comment names a live post and a live user, and every
  post names a live user. \<open>references_live_or_null\<close> lets the post of a comment be NULL.
\<close>

definition live_user :: "database \<Rightarrow> nat \<Rightarrow> bool" where
  "live_user d i = (i \<in> set (map u_id (users d)))"

definition live_post :: "database \<Rightarrow> nat \<Rightarrow> bool" where
  "live_post d i = (i \<in> set (map p_id (blog_posts d)))"

definition refers_to :: "(nat \<Rightarrow> bool) \<Rightarrow> nat option \<Rightarrow> bool" where
  "refers_to live r = (case r of None \<Rightarrow> False | Some i \<Rightarrow> live i)"

definition posts_have_author :: "database \<Rightarrow> bool" where
  "posts_have_author d = list_all (\<lambda>p. refers_to (live_user d) (p_author_id p)) (blog_posts d)"

definition comments_have_author :: "database \<Rightarrow> bool" where
  "comments_have_author d =
     list_all (\<lambda>cm. refers_to (live_user d) (c_author_id cm)) (comments d)"

definition comments_have_post :: "database \<Rightarrow> bool" where
  "comments_have_post d = list_all (\<lambda>cm. refers_to (live_post d) (c_post_id cm)) (comments d)"

definition comments_have_post_or_null :: "database \<Rightarrow> bool" where
  "comments_have_post_or_null d =
     list_all (\<lambda>cm. c_post_id cm = None \<or> refers_to (live_post d) (c_post_id cm)) (comments d)"

definition references_live :: "database \<Rightarrow> bool" where
  "references_live d = (comments_have_post d \<and> comments_have_author d \<and> posts_have_author d)"

definition references_live_or_null :: "database \<Rightarrow> bool" where
  "references_live_or_null d =
     (comments_have_post_or_null d \<and> comments_have_author d \<and> posts_have_author d)"

text \<open>
  The ids of the user rows are sequential when the rows, in storage order, carry
  \<open>1, 2, \<dots>, n\<close>. A session is live when the id it holds, if any, is a live user.
\<close>

definition sequential_user_ids :: "database \<Rightarrow> bool" where
  "sequential_user_ids d = (map u_id (users d) = [1..<Suc (length (users d))])"

definition session_live :: "database \<Rightarrow> session \<Rightarrow> bool" where
  "session_live d s = (case s_user_id s of None \<Rightarrow> True | Some i \<Rightarrow> live_user d i)"

definition database_ok :: "database \<Rightarrow> bool" where
  "database_ok d = (sequential_user_ids d \<and> references_live_or_null d)"

definition ctx_of :: "world \<Rightarrow> nat \<Rightarrow> ctx" where
  "ctx_of w client = \<lparr>db = w_db w, sess = w_sessions w client\<rparr>"

definition is_admin_session :: "session \<Rightarrow> bool" where
  "is_admin_session s = (s_user_id s = Some 1)"

subsection \<open>A concrete run\<close>

text \<open>
  A stand-in hasher and a short history of one client, used to evaluate the handlers on
  concrete states: a first registration, two posts, a comment on the first post, and the
  deletion of that post.
\<close>

definition demo_hasher :: hasher where
  "demo_hasher =
     \<lparr>generate_password_hash = (\<lambda>salt password. ''pbkdf2:sha256$'' @ salt @ ''$'' @ rev password),
      check_password_hash =
        (\<lambda>pwhash password.
           pwhash = ''pbkdf2:sha256$'' @ take 8 (drop 14 pwhash) @ ''$'' @ rev password)\<rparr>"

definition demo_register_form :: register_form where
  "demo_register_form =
     \<lparr>rf_name = ''Ann'', rf_email = ''ann@example.com'', rf_password = ''secret''\<rparr>"

definition demo_today :: date where
  "demo_today = \<lparr>year = 2024, month_of = April, day = 5\<rparr>"

definition demo_post_form :: "string \<Rightarrow> create_post_form" where
  "demo_post_form t =
     \<lparr>pf_title = t, pf_subtitle = ''Sub'', pf_img_url = ''http://img'', pf_body = ''Body''\<rparr>"

definition world1 :: world where
  "world1 = snd (serve demo_hasher 0 (Req_register ''saltsalt'' (Some demo_register_form))
                  initial_world)"

definition world2 :: world where
  "world2 = snd (serve demo_hasher 0 (Req_add_new_post demo_today (Some (demo_post_form ''First'')))
                  world1)"

definition world3 :: world where
  "world3 = snd (serve demo_hasher 0 (Req_add_new_post demo_today (Some (demo_post_form ''Second'')))
                  world2)"

definition world4 :: world where
  "world4 = snd (serve demo_hasher 0 (Req_show_post 1 (Some ''Nice'')) world3)"

definition world5 :: world where
  "world5 = snd (serve demo_hasher 0 (Req_delete_post 1) world4)"

text \<open>
  A second client registers after the comment was written: its user gets the id 2.
\<close>

definition other_register_form :: register_form where
  "other_register_form =
     \<lparr>rf_name = ''Bob'', rf_email = ''bob@example.com'', rf_password = ''hunter2''\<rparr>"

definition world6 :: world where
  "world6 = snd (serve demo_hasher 7 (Req_register ''pepper00'' (Some other_register_form))
                  world4)"

subsection \<open>Invariants of the request loop\<close>

text \<open>
  A handler keeps the state well formed when, started on a well-formed database with a live
  session, it leaves a well-formed database and a live session and forgets no user. A world
  is well formed when its database is and the session of every client is live.
\<close>

definition handler_ok :: "handler \<Rightarrow> bool" where
  "handler_ok h =
     (\<forall>c resp c'. database_ok (db c) \<and> session_live (db c) (sess c) \<and> h c = (resp, c') \<longrightarrow>
        database_ok (db c') \<and> session_live (db c') (sess c')
        \<and> (\<forall>i. live_user (db c) i \<longrightarrow> live_user (db c') i))"

definition world_ok :: "world \<Rightarrow> bool" where
  "world_ok w =
     (database_ok (w_db w) \<and> (\<forall>client. session_live (w_db w) (w_sessions w client)))"

section \<open>Startup\<close>

text \<open>
  C2 (as the specification states it, refuted): with \<^verbatim>\<open>FLASK_KEY\<close> absent from the
  environment the application does not refuse to start; startup succeeds and the
  configuration holds no secret key.
\<close>

theorem startup_without_key_succeeds:
  "startup Map.empty =
     Inr \<lparr>secret_key = None, sqlalchemy_database_uri = ''sqlite:///posts.db''\<rparr>"
  by (simp add: startup_def)

text \<open>
  C2 (amended): startup never fails, whatever the environment; the secret key of the
  configuration is exactly the value of \<^verbatim>\<open>FLASK_KEY\<close>, and it is missing (\<open>None\<close>) when
  the variable is not set. No default value is put in its place.
\<close>

theorem startup_takes_key_from_environment:
  "\<exists>cfg. startup environ = Inr cfg \<and> secret_key cfg = environ ''FLASK_KEY''"
  by (simp add: startup_def)

section \<open>Storage lemmas\<close>

lemma fold_max_ge: "a \<le> fold max ids (a::nat)"
  by (induction ids arbitrary: a) (auto intro: order_trans [OF max.cobounded2])

lemma fold_max_mem: "i \<in> set ids \<Longrightarrow> i \<le> fold max ids (a::nat)"
proof (induction ids arbitrary: a)
  case Nil
  then show ?case by simp
next
  case (Cons x xs)
  show ?case
  proof (cases "i = x")
    case True
    have "x \<le> max x a" by simp
    also have "\<dots> \<le> fold max xs (max x a)" by (rule fold_max_ge)
    finally show ?thesis using True by simp
  next
    case False
    with Cons.prems have "i \<in> set xs" by simp
    then show ?thesis using Cons.IH by simp
  qed
qed

lemma next_id_greater: "i \<in> set ids \<Longrightarrow> i < next_id ids"
  using fold_max_mem [of i ids 0] by (simp add: next_id_def)

lemma next_id_fresh: "next_id ids \<notin> set ids"
  using next_id_greater [of "next_id ids" ids] by auto

lemma next_id_positive: "0 < next_id ids"
  by (simp add: next_id_def)

lemma fold_max_upt: "fold max [Suc 0..<Suc n] 0 = n"
proof (induction n)
  case 0
  show ?case by simp
next
  case (Suc n)
  have "[Suc 0..<Suc (Suc n)] = [Suc 0..<Suc n] @ [Suc n]" by simp
  then have "fold max [Suc 0..<Suc (Suc n)] 0 = max (Suc n) (fold max [Suc 0..<Suc n] 0)"
    by (simp only: fold_append fold_simps comp_apply id_apply)
  then show ?case using Suc.IH by simp
qed

lemma next_id_sequential: "next_id [Suc 0..<Suc n] = Suc n"
  by (simp add: next_id_def fold_max_upt del: upt_Suc)

lemma next_id_key_fresh: "x \<in> set rows \<Longrightarrow> key x \<noteq> next_id (map key rows)"
  using next_id_greater [of "key x" "map key rows"] by auto

lemma find_fresh_append:
  "\<forall>x \<in> set xs. \<not> P x \<Longrightarrow> P y \<Longrightarrow> find P (xs @ [y]) = Some y"
  by (induction xs) auto

lemma get_or_404_Inr:
  "get_or_404 key rows i = Inr r \<Longrightarrow> r \<in> set rows \<and> key r = i"
  by (auto simp: get_or_404_def find_Some_iff split: option.splits)

lemma get_or_404_Inl:
  "get_or_404 key rows i = Inl e \<Longrightarrow> e = Abort 404 \<and> i \<notin> set (map key rows)"
  by (auto simp: get_or_404_def find_None_iff split: option.splits)

lemma get_or_404_new:
  "key r = next_id (map key rows) \<Longrightarrow> get_or_404 key (rows @ [r]) (key r) = Inr r"
proof -
  assume k: "key r = next_id (map key rows)"
  have "\<forall>x \<in> set rows. \<not> key x = key r"
    using next_id_key_fresh [of _ rows key] k by auto
  then have "find (\<lambda>x. key x = key r) (rows @ [r]) = Some r"
    by (rule find_fresh_append) simp
  then show ?thesis by (simp add: get_or_404_def)
qed

lemmas ref_defs =
  references_live_or_null_def comments_have_post_or_null_def comments_have_author_def
  posts_have_author_def refers_to_def list_all_iff

lemma live_user_same: "users d' = users d \<Longrightarrow> live_user d' = live_user d"
  by (simp add: live_user_def fun_eq_iff)

lemma live_user_update:
  "live_user (d\<lparr>blog_posts := ps\<rparr>) i = live_user d i"
  "live_user (d\<lparr>comments := cs\<rparr>) i = live_user d i"
  by (simp_all add: live_user_def)

lemma sequential_same: "users d' = users d \<Longrightarrow> sequential_user_ids d' = sequential_user_ids d"
  by (simp add: sequential_user_ids_def)

lemma add_user_Inr:
  assumes "add_user d n e pw = Inr (u, d')"
  shows "u = \<lparr>u_id = next_id (map u_id (users d)), u_name = n, u_email = e, u_password = pw\<rparr>"
    and "d' = d\<lparr>users := users d @ [u]\<rparr>"
    and "e \<notin> set (map u_email (users d))"
  using assms by (auto simp: add_user_def Let_def split: if_splits)

lemma add_user_sequential:
  assumes "sequential_user_ids d" and "add_user d n e pw = Inr (u, d')"
  shows "sequential_user_ids d'" and "u_id u = Suc (length (users d))"
proof -
  have ids: "map u_id (users d) = [Suc 0..<Suc (length (users d))]"
    using assms(1) by (simp add: sequential_user_ids_def)
  have "u_id u = next_id (map u_id (users d))"
    using add_user_Inr(1) [OF assms(2)] by simp
  then show uid: "u_id u = Suc (length (users d))"
    by (simp only: ids next_id_sequential)
  have "map u_id (users d') = map u_id (users d) @ [u_id u]"
    using add_user_Inr(2) [OF assms(2)] by simp
  also have "\<dots> = [Suc 0..<Suc (length (users d))] @ [Suc (length (users d))]"
    by (simp only: ids uid)
  also have "\<dots> = [Suc 0..<Suc (Suc (length (users d)))]"
    by simp
  finally show "sequential_user_ids d'"
    using add_user_Inr(2) [OF assms(2)] by (simp add: sequential_user_ids_def)
qed

lemma add_user_live:
  assumes "add_user d n e pw = Inr (u, d')"
  shows "live_user d' i = (live_user d i \<or> i = u_id u)"
  using add_user_Inr(2) [OF assms] by (auto simp: live_user_def)

lemma add_user_references:
  assumes "references_live_or_null d" and "add_user d n e pw = Inr (u, d')"
  shows "references_live_or_null d'"
proof -
  have tables: "blog_posts d' = blog_posts d" "comments d' = comments d"
    using add_user_Inr(2) [OF assms(2)] by simp_all
  have posts: "live_post d' = live_post d"
    by (simp add: live_post_def fun_eq_iff tables)
  show ?thesis
    using assms(1)
    by (auto simp: ref_defs tables posts add_user_live [OF assms(2)] split: option.splits)
qed

lemma add_user_ok:
  assumes "database_ok d" and "add_user d n e pw = Inr (u, d')"
  shows "database_ok d'"
  using assms add_user_sequential(1) add_user_references
  by (auto simp: database_ok_def)

lemma add_blog_post_ok:
  assumes "database_ok d" and "live_user d a"
    and "add_blog_post d (Some a) t st dt b img = Inr (p, d')"
  shows "database_ok d'" and "users d' = users d"
proof -
  have p: "p_author_id p = Some a" and d': "d' = d\<lparr>blog_posts := blog_posts d @ [p]\<rparr>"
    using assms(3) by (auto simp: add_blog_post_def Let_def split: if_splits)
  show u: "users d' = users d" by (simp add: d')
  have "references_live_or_null d'"
    using assms(1,2) p
    by (auto simp: database_ok_def ref_defs live_user_update live_post_def d'
             split: option.splits)
  then show "database_ok d'"
    using assms(1) by (simp add: database_ok_def sequential_same [OF u])
qed

lemma update_blog_post_ok:
  assumes "database_ok d" and "live_user d a" and "p_author_id p = Some a"
    and "update_blog_post d p = Inr d'"
  shows "database_ok d'" and "users d' = users d"
proof -
  have d': "d' = d\<lparr>blog_posts := map (\<lambda>q. if p_id q = p_id p then p else q) (blog_posts d)\<rparr>"
    using assms(4) by (auto simp: update_blog_post_def split: if_splits)
  show u: "users d' = users d" by (simp add: d')
  have "map p_id (blog_posts d') = map p_id (blog_posts d)"
    by (simp add: d')
  then have posts: "live_post d' = live_post d"
    by (simp add: live_post_def fun_eq_iff)
  have "references_live_or_null d'"
    using assms(1,2,3)
    by (auto simp: database_ok_def ref_defs live_user_same [OF u] posts split: option.splits)
       (auto simp: d')
  then show "database_ok d'"
    using assms(1) by (simp add: database_ok_def sequential_same [OF u])
qed

lemma add_comment_ok:
  assumes "database_ok d" and "live_user d a" and "live_post d pid"
  shows "database_ok (snd (add_comment d (Some a) (Some pid) t))"
    and "users (snd (add_comment d (Some a) (Some pid) t)) = users d"
proof -
  let ?d = "snd (add_comment d (Some a) (Some pid) t)"
  show u: "users ?d = users d" by (simp add: add_comment_def Let_def)
  have posts: "live_post ?d = live_post d"
    by (simp add: live_post_def fun_eq_iff add_comment_def Let_def)
  have "references_live_or_null ?d"
    using assms
    by (auto simp: database_ok_def ref_defs live_user_same [OF u] posts split: option.splits)
       (auto simp: add_comment_def Let_def)
  then show "database_ok ?d"
    using assms(1) by (simp add: database_ok_def sequential_same [OF u])
qed

lemma delete_blog_post_live:
  "live_post (delete_blog_post d p) i = (live_post d i \<and> i \<noteq> p_id p)"
  by (auto simp: live_post_def delete_blog_post_def)

lemma delete_blog_post_ok:
  assumes "database_ok d"
  shows "database_ok (delete_blog_post d p)" and "users (delete_blog_post d p) = users d"
proof -
  let ?d = "delete_blog_post d p"
  show u: "users ?d = users d" by (simp add: delete_blog_post_def)
  have "references_live_or_null ?d"
    using assms
    by (auto simp: database_ok_def ref_defs live_user_same [OF u] delete_blog_post_live
             split: option.splits)
       (auto simp: delete_blog_post_def split: if_splits)
  then show "database_ok ?d"
    using assms by (simp add: database_ok_def sequential_same [OF u])
qed

section \<open>Handlers keep the state well formed\<close>

lemma handler_okI:
  assumes "\<And>c resp c'. database_ok (db c) \<Longrightarrow> session_live (db c) (sess c) \<Longrightarrow> h c = (resp, c')
             \<Longrightarrow> database_ok (db c') \<and> session_live (db c') (sess c')
                 \<and> (\<forall>i. live_user (db c) i \<longrightarrow> live_user (db c') i)"
  shows "handler_ok h"
  unfolding handler_ok_def
proof (intro allI impI, elim conjE)
  fix c resp c'
  assume "database_ok (db c)" and "session_live (db c) (sess c)" and "h c = (resp, c')"
  then show "database_ok (db c') \<and> session_live (db c') (sess c')
               \<and> (\<forall>i. live_user (db c) i \<longrightarrow> live_user (db c') i)"
    by (rule assms)
qed

lemma current_user_Some:
  assumes "current_user c = Inr (Some u)"
  shows "s_user_id (sess c) = Some (u_id u)" and "u \<in> set (users (db c))"
    and "live_user (db c) (u_id u)"
proof -
  from assms obtain i where i: "s_user_id (sess c) = Some i"
    and g: "get_or_404 u_id (users (db c)) i = Inr u"
    by (auto simp: current_user_def load_user_def split: option.splits sum.splits)
  from get_or_404_Inr [OF g] show "u \<in> set (users (db c))" and "s_user_id (sess c) = Some (u_id u)"
    using i by simp_all
  then show "live_user (db c) (u_id u)" by (simp add: live_user_def)
qed

lemma current_user_None:
  "current_user c = Inr None \<Longrightarrow> s_user_id (sess c) = None"
  by (auto simp: current_user_def split: option.splits sum.splits)

lemma current_user_live:
  assumes "session_live (db c) (sess c)"
  shows "\<exists>cu. current_user c = Inr cu"
proof (cases "s_user_id (sess c)")
  case None
  then show ?thesis by (simp add: current_user_def)
next
  case (Some i)
  with assms have "i \<in> set (map u_id (users (db c)))"
    by (simp add: session_live_def live_user_def)
  then have "find (\<lambda>r. u_id r = i) (users (db c)) \<noteq> None"
    by (auto simp: find_None_iff)
  then show ?thesis
    using Some by (auto simp: current_user_def load_user_def get_or_404_def split: option.splits)
qed

lemma select_user_by_email_Some:
  "select_user_by_email d e = Some u \<Longrightarrow> u \<in> set (users d) \<and> u_email u = e"
  by (auto simp: select_user_by_email_def find_Some_iff)

lemma select_user_by_email_None:
  "select_user_by_email d e = None \<Longrightarrow> e \<notin> set (map u_email (users d))"
  by (auto simp: select_user_by_email_def find_None_iff)

lemma session_live_simps:
  "session_live d (s\<lparr>s_flashes := fs\<rparr>) = session_live d s"
  "session_live d (s\<lparr>s_user_id := None\<rparr>)"
  "session_live d (s\<lparr>s_user_id := Some i\<rparr>) = live_user d i"
  by (simp_all add: session_live_def)

lemma session_live_same: "users d' = users d \<Longrightarrow> session_live d' s = session_live d s"
  by (simp add: session_live_def live_user_def split: option.splits)

lemma register_ok: "handler_ok (register H salt f)"
proof (rule handler_okI)
  fix c resp c'
  assume ok: "database_ok (db c)" and live: "session_live (db c) (sess c)"
    and run: "register H salt f c = (resp, c')"
  show "database_ok (db c') \<and> session_live (db c') (sess c')
          \<and> (\<forall>i. live_user (db c) i \<longrightarrow> live_user (db c') i)"
  proof (cases "\<exists>g u d. f = Some g \<and> select_user_by_email (db c) (rf_email g) = None
      \<and> add_user (db c) (rf_name g) (rf_email g) (generate_password_hash H salt (rf_password g))
          = Inr (u, d)")
    case True
    then obtain g u d where f: "f = Some g"
      and fresh: "select_user_by_email (db c) (rf_email g) = None"
      and add: "add_user (db c) (rf_name g) (rf_email g)
                  (generate_password_hash H salt (rf_password g)) = Inr (u, d)"
      by blast
    have c': "c' = login_user u (c\<lparr>db := d\<rparr>)"
      using run f fresh add by (simp add: register_def Let_def)
    show ?thesis
      using add_user_ok [OF ok add] add_user_live [OF add]
      by (simp add: c' login_user_def session_live_simps)
  next
    case False
    then have "db c' = db c \<and> s_user_id (sess c') = s_user_id (sess c)"
      using run
      by (auto simp: register_def Let_def flash_def split: option.splits if_splits sum.splits)
    then show ?thesis using ok live by (simp add: session_live_def)
  qed
qed

lemma login_ok: "handler_ok (login H f)"
proof (rule handler_okI)
  fix c resp c'
  assume ok: "database_ok (db c)" and live: "session_live (db c) (sess c)"
    and run: "login H f c = (resp, c')"
  have d: "db c' = db c"
    using run
    by (auto simp: login_def flash_def login_user_def split: option.splits if_splits)
  have "session_live (db c) (sess c')"
    using run live
    by (auto simp: login_def flash_def login_user_def session_live_simps live_user_def
             dest!: select_user_by_email_Some split: option.splits if_splits)
  then show "database_ok (db c') \<and> session_live (db c') (sess c')
          \<and> (\<forall>i. live_user (db c) i \<longrightarrow> live_user (db c') i)"
    using ok by (simp add: d)
qed

lemma logout_ok: "handler_ok logout"
  by (rule handler_okI) (auto simp: logout_def logout_user_def session_live_simps)

lemma get_all_posts_ok: "handler_ok get_all_posts"
  by (rule handler_okI) (auto simp: get_all_posts_def)

lemma about_ok: "handler_ok about"
  by (rule handler_okI) (auto simp: about_def)

lemma contact_ok: "handler_ok contact"
  by (rule handler_okI) (auto simp: contact_def)

lemma get_all_live: "get_or_404 key rows i = Inr r \<Longrightarrow> i \<in> set (map key rows)"
  using get_or_404_Inr [of key rows i r] by auto

lemma show_post_ok: "handler_ok (show_post post_id f)"
proof (rule handler_okI)
  fix c resp c'
  assume ok: "database_ok (db c)" and live: "session_live (db c) (sess c)"
    and run: "show_post post_id f c = (resp, c')"
  show "database_ok (db c') \<and> session_live (db c') (sess c')
          \<and> (\<forall>i. live_user (db c) i \<longrightarrow> live_user (db c') i)"
  proof (cases "\<exists>p t u. get_or_404 p_id (blog_posts (db c)) post_id = Inr p \<and> f = Some t
                  \<and> current_user c = Inr (Some u)")
    case True
    then obtain p t u where p: "get_or_404 p_id (blog_posts (db c)) post_id = Inr p"
      and f: "f = Some t" and u: "current_user c = Inr (Some u)"
      by blast
    have c': "c' = c\<lparr>db := snd (add_comment (db c) (Some (u_id u)) (Some post_id) t)\<rparr>"
      using run p f u by (simp add: show_post_def)
    have lp: "live_post (db c) post_id"
      using get_all_live [OF p] by (simp add: live_post_def)
    note ac = add_comment_ok [OF ok current_user_Some(3) [OF u] lp, of t]
    show ?thesis
      using ac live by (simp add: c' session_live_same [OF ac(2)] live_user_same [OF ac(2)])
  next
    case False
    then have "db c' = db c \<and> s_user_id (sess c') = s_user_id (sess c)"
      using run
      by (auto simp: show_post_def flash_def split: option.splits sum.splits)
    then show ?thesis using ok live by (simp add: session_live_def)
  qed
qed

lemma add_new_post_body_ok: "handler_ok (add_new_post_body today f)"
proof (rule handler_okI)
  fix c resp c'
  assume ok: "database_ok (db c)" and live: "session_live (db c) (sess c)"
    and run: "add_new_post_body today f c = (resp, c')"
  show "database_ok (db c') \<and> session_live (db c') (sess c')
          \<and> (\<forall>i. live_user (db c) i \<longrightarrow> live_user (db c') i)"
  proof (cases "\<exists>g u p d. f = Some g \<and> current_user c = Inr (Some u)
      \<and> add_blog_post (db c) (Some (u_id u)) (pf_title g) (pf_subtitle g)
            (strftime_B_d_Y today) (pf_body g) (pf_img_url g) = Inr (p, d)")
    case True
    then obtain g u p d where f: "f = Some g" and u: "current_user c = Inr (Some u)"
      and add: "add_blog_post (db c) (Some (u_id u)) (pf_title g) (pf_subtitle g)
            (strftime_B_d_Y today) (pf_body g) (pf_img_url g) = Inr (p, d)"
      by blast
    have c': "c' = c\<lparr>db := d\<rparr>"
      using run f u add by (simp add: add_new_post_body_def)
    note ab = add_blog_post_ok [OF ok current_user_Some(3) [OF u] add]
    show ?thesis
      using ab live by (simp add: c' session_live_same [OF ab(2)] live_user_same [OF ab(2)])
  next
    case False
    then have "c' = c"
      using run
      by (auto simp: add_new_post_body_def split: option.splits sum.splits)
    then show ?thesis using ok live by simp
  qed
qed

lemma edit_post_body_ok: "handler_ok (edit_post_body post_id f)"
proof (rule handler_okI)
  fix c resp c'
  assume ok: "database_ok (db c)" and live: "session_live (db c) (sess c)"
    and run: "edit_post_body post_id f c = (resp, c')"
  show "database_ok (db c') \<and> session_live (db c') (sess c')
          \<and> (\<forall>i. live_user (db c) i \<longrightarrow> live_user (db c') i)"
  proof (cases "\<exists>post g u d. get_or_404 p_id (blog_posts (db c)) post_id = Inr post
      \<and> f = Some g \<and> current_user c = Inr (Some u)
      \<and> update_blog_post (db c)
            (post\<lparr>p_title := pf_title g, p_subtitle := pf_subtitle g,
                  p_img_url := pf_img_url g, p_author_id := Some (u_id u),
                  p_body := pf_body g\<rparr>) = Inr d")
    case True
    then obtain post g u d where post: "get_or_404 p_id (blog_posts (db c)) post_id = Inr post"
      and f: "f = Some g" and u: "current_user c = Inr (Some u)"
      and upd: "update_blog_post (db c)
            (post\<lparr>p_title := pf_title g, p_subtitle := pf_subtitle g,
                  p_img_url := pf_img_url g, p_author_id := Some (u_id u),
                  p_body := pf_body g\<rparr>) = Inr d"
      by blast
    have c': "c' = c\<lparr>db := d\<rparr>"
      using run post f u upd by (simp add: edit_post_body_def)
    have ud: "users d = users (db c)" and dok: "database_ok d"
      using update_blog_post_ok [OF ok current_user_Some(3) [OF u] _ upd] by simp_all
    show ?thesis
      using live dok by (simp add: c' session_live_same [OF ud] live_user_same [OF ud])
  next
    case False
    then have "c' = c"
      using run
      by (auto simp: edit_post_body_def split: option.splits sum.splits)
    then show ?thesis using ok live by simp
  qed
qed

lemma delete_post_body_ok: "handler_ok (delete_post_body post_id)"
proof (rule handler_okI)
  fix c resp c'
  assume ok: "database_ok (db c)" and live: "session_live (db c) (sess c)"
    and run: "delete_post_body post_id c = (resp, c')"
  show "database_ok (db c') \<and> session_live (db c') (sess c')
          \<and> (\<forall>i. live_user (db c) i \<longrightarrow> live_user (db c') i)"
  proof (cases "get_or_404 p_id (blog_posts (db c)) post_id")
    case (Inl e)
    then have "c' = c" using run by (simp add: delete_post_body_def)
    then show ?thesis using ok live by simp
  next
    case (Inr p)
    then have c': "c' = c\<lparr>db := delete_blog_post (db c) p\<rparr>"
      using run by (simp add: delete_post_body_def)
    note del = delete_blog_post_ok [OF ok, of p]
    show ?thesis
      using del live by (simp add: c' session_live_same [OF del(2)] live_user_same [OF del(2)])
  qed
qed

lemma admin_only_ok: "handler_ok function \<Longrightarrow> handler_ok (admin_only function)"
proof (rule handler_okI)
  fix c resp c'
  assume h: "handler_ok function"
    and ok: "database_ok (db c)" and live: "session_live (db c) (sess c)"
    and run: "admin_only function c = (resp, c')"
  show "database_ok (db c') \<and> session_live (db c') (sess c')
          \<and> (\<forall>i. live_user (db c) i \<longrightarrow> live_user (db c') i)"
  proof (cases "function c = (resp, c')")
    case True
    with h ok live show ?thesis unfolding handler_ok_def by blast
  next
    case False
    then have "c' = c"
      using run by (auto simp: admin_only_def split: sum.splits option.splits if_splits)
    then show ?thesis using ok live by simp
  qed
qed

lemma route_ok: "handler_ok (route H r)"
  by (cases r)
     (simp_all add: register_ok login_ok logout_ok get_all_posts_ok show_post_ok about_ok
        contact_ok add_new_post_def edit_post_def delete_post_def admin_only_ok
        add_new_post_body_ok edit_post_body_ok delete_post_body_ok)

lemma initial_world_ok: "world_ok initial_world"
  by (simp add: world_ok_def initial_world_def empty_database_def new_session_def
        database_ok_def sequential_user_ids_def ref_defs session_live_def)

lemma serve_ok:
  assumes "world_ok w"
  shows "world_ok (snd (serve H client r w))"
proof -
  let ?c = "\<lparr>db = w_db w, sess = w_sessions w client\<rparr>"
  obtain resp c' where run: "route H r ?c = (resp, c')"
    by (cases "route H r ?c") blast
  have w': "snd (serve H client r w) = \<lparr>w_db = db c', w_sessions = (w_sessions w)(client := sess c')\<rparr>"
    by (simp add: serve_def run)
  have pre: "database_ok (db ?c)" "session_live (db ?c) (sess ?c)"
    using assms by (simp_all add: world_ok_def)
  have post: "database_ok (db c')" "session_live (db c') (sess c')"
    "\<And>i. live_user (db ?c) i \<Longrightarrow> live_user (db c') i"
    using route_ok [of H r] pre run unfolding handler_ok_def by blast+
  have "session_live (db c') (w_sessions w other)" for other
    using assms post(3) by (auto simp: world_ok_def session_live_def split: option.splits)
  then show ?thesis
    using post(1,2) by (simp add: w' world_ok_def)
qed

lemma reachable_ok: "reachable H w \<Longrightarrow> world_ok w"
  by (induction rule: reachable.induct) (simp_all add: initial_world_ok serve_ok)

section \<open>The concrete run, evaluated\<close>

lemmas eval_defs =
  register_def login_def logout_def get_all_posts_def show_post_def add_new_post_def
  edit_post_def delete_post_def about_def contact_def admin_only_def add_new_post_body_def
  edit_post_body_def delete_post_body_def current_user_def load_user_def get_or_404_def
  select_user_by_email_def add_user_def add_blog_post_def update_blog_post_def add_comment_def
  delete_blog_post_def login_user_def logout_user_def flash_def check_password_def next_id_def
  Let_def serve_def demo_hasher_def demo_register_form_def demo_today_def demo_post_form_def
  strftime_B_d_Y_def zero_padded_def digit_def decimal.simps

lemma world1_value:
  "w_db world1 =
     \<lparr>users = [\<lparr>u_id = 1, u_name = ''Ann'', u_email = ''ann@example.com'',
                 u_password = ''pbkdf2:sha256$saltsalt$terces''\<rparr>],
      blog_posts = [], comments = []\<rparr>"
  "w_sessions world1 = (\<lambda>client. new_session)(0 := \<lparr>s_user_id = Some 1, s_flashes = []\<rparr>)"
  by (simp_all add: world1_def initial_world_def empty_database_def eval_defs)
     (simp add: new_session_def)

lemma world2_value:
  "w_db world2 =
     \<lparr>users = [\<lparr>u_id = 1, u_name = ''Ann'', u_email = ''ann@example.com'',
                 u_password = ''pbkdf2:sha256$saltsalt$terces''\<rparr>],
      blog_posts = [\<lparr>p_id = 1, p_author_id = Some 1, p_title = ''First'', p_subtitle = ''Sub'',
                      p_date = ''April 05, 2024'', p_body = ''Body'',
                      p_img_url = ''http://img''\<rparr>],
      comments = []\<rparr>"
  "w_sessions world2 = (\<lambda>client. new_session)(0 := \<lparr>s_user_id = Some 1, s_flashes = []\<rparr>)"
  by (simp_all add: world2_def world1_value eval_defs)

lemma world3_value:
  "w_db world3 =
     \<lparr>users = [\<lparr>u_id = 1, u_name = ''Ann'', u_email = ''ann@example.com'',
                 u_password = ''pbkdf2:sha256$saltsalt$terces''\<rparr>],
      blog_posts = [\<lparr>p_id = 1, p_author_id = Some 1, p_title = ''First'', p_subtitle = ''Sub'',
                      p_date = ''April 05, 2024'', p_body = ''Body'',
                      p_img_url = ''http://img''\<rparr>,
                    \<lparr>p_id = 2, p_author_id = Some 1, p_title = ''Second'', p_subtitle = ''Sub'',
                      p_date = ''April 05, 2024'', p_body = ''Body'',
                      p_img_url = ''http://img''\<rparr>],
      comments = []\<rparr>"
  "w_sessions world3 = (\<lambda>client. new_session)(0 := \<lparr>s_user_id = Some 1, s_flashes = []\<rparr>)"
  by (simp_all add: world3_def world2_value eval_defs)

lemma world4_value:
  "w_db world4 =
     \<lparr>users = [\<lparr>u_id = 1, u_name = ''Ann'', u_email = ''ann@example.com'',
                 u_password = ''pbkdf2:sha256$saltsalt$terces''\<rparr>],
      blog_posts = [\<lparr>p_id = 1, p_author_id = Some 1, p_title = ''First'', p_subtitle = ''Sub'',
                      p_date = ''April 05, 2024'', p_body = ''Body'',
                      p_img_url = ''http://img''\<rparr>,
                    \<lparr>p_id = 2, p_author_id = Some 1, p_title = ''Second'', p_subtitle = ''Sub'',
                      p_date = ''April 05, 2024'', p_body = ''Body'',
                      p_img_url = ''http://img''\<rparr>],
      comments = [\<lparr>c_id = 1, c_author_id = Some 1, c_post_id = Some 1, c_text = ''Nice''\<rparr>]\<rparr>"
  "w_sessions world4 = (\<lambda>client. new_session)(0 := \<lparr>s_user_id = Some 1, s_flashes = []\<rparr>)"
  by (simp_all add: world4_def world3_value eval_defs)

lemma world5_value:
  "w_db world5 =
     \<lparr>users = [\<lparr>u_id = 1, u_name = ''Ann'', u_email = ''ann@example.com'',
                 u_password = ''pbkdf2:sha256$saltsalt$terces''\<rparr>],
      blog_posts = [\<lparr>p_id = 2, p_author_id = Some 1, p_title = ''Second'', p_subtitle = ''Sub'',
                      p_date = ''April 05, 2024'', p_body = ''Body'',
                      p_img_url = ''http://img''\<rparr>],
      comments = [\<lparr>c_id = 1, c_author_id = Some 1, c_post_id = None, c_text = ''Nice''\<rparr>]\<rparr>"
  "w_sessions world5 = (\<lambda>client. new_session)(0 := \<lparr>s_user_id = Some 1, s_flashes = []\<rparr>)"
  by (simp_all add: world5_def world4_value eval_defs)

lemma worlds_reachable:
  "reachable demo_hasher world1" "reachable demo_hasher world2" "reachable demo_hasher world3"
  "reachable demo_hasher world4" "reachable demo_hasher world5"
proof -
  show 1: "reachable demo_hasher world1"
    unfolding world1_def by (rule reachable_serve [OF reachable_initial])
  show 2: "reachable demo_hasher world2"
    unfolding world2_def by (rule reachable_serve [OF 1])
  show 3: "reachable demo_hasher world3"
    unfolding world3_def by (rule reachable_serve [OF 2])
  show 4: "reachable demo_hasher world4"
    unfolding world4_def by (rule reachable_serve [OF 3])
  show "reachable demo_hasher world5"
    unfolding world5_def by (rule reachable_serve [OF 4])
qed

lemma world6_value:
  "w_db world6 =
     \<lparr>users = [\<lparr>u_id = 1, u_name = ''Ann'', u_email = ''ann@example.com'',
                 u_password = ''pbkdf2:sha256$saltsalt$terces''\<rparr>,
               \<lparr>u_id = 2, u_name = ''Bob'', u_email = ''bob@example.com'',
                 u_password = ''pbkdf2:sha256$pepper00$2retnuh''\<rparr>],
      blog_posts = [\<lparr>p_id = 1, p_author_id = Some 1, p_title = ''First'', p_subtitle = ''Sub'',
                      p_date = ''April 05, 2024'', p_body = ''Body'',
                      p_img_url = ''http://img''\<rparr>,
                    \<lparr>p_id = 2, p_author_id = Some 1, p_title = ''Second'', p_subtitle = ''Sub'',
                      p_date = ''April 05, 2024'', p_body = ''Body'',
                      p_img_url = ''http://img''\<rparr>],
      comments = [\<lparr>c_id = 1, c_author_id = Some 1, c_post_id = Some 1, c_text = ''Nice''\<rparr>]\<rparr>"
  "w_sessions world6 =
     (\<lambda>client. new_session)(0 := \<lparr>s_user_id = Some 1, s_flashes = []\<rparr>,
                              7 := \<lparr>s_user_id = Some 2, s_flashes = []\<rparr>)"
  by (simp_all add: world6_def world4_value other_register_form_def eval_defs new_session_def
        numeral_2_eq_2)

lemma world6_reachable: "reachable demo_hasher world6"
  unfolding world6_def by (rule reachable_serve [OF worlds_reachable(4)])

lemma admin_only_reachable:
  assumes "reachable H w"
  shows "admin_only function (ctx_of w client) =
           (if s_user_id (w_sessions w client) = Some 1 then function (ctx_of w client)
            else (Abort 403, ctx_of w client))"
proof -
  let ?c = "ctx_of w client"
  have "session_live (db ?c) (sess ?c)"
    using reachable_ok [OF assms] by (simp add: world_ok_def ctx_of_def)
  then obtain cu where cu: "current_user ?c = Inr cu"
    using current_user_live by blast
  show ?thesis
  proof (cases cu)
    case None
    then have "s_user_id (w_sessions w client) = None"
      using current_user_None [of ?c] cu by (simp add: ctx_of_def)
    then show ?thesis using cu None by (simp add: admin_only_def)
  next
    case (Some u)
    then have "s_user_id (w_sessions w client) = Some (u_id u)"
      using current_user_Some(1) [of ?c u] cu by (simp add: ctx_of_def)
    then show ?thesis using cu Some by (simp add: admin_only_def)
  qed
qed

lemma serve_unchanged:
  assumes "route H r (ctx_of w client) = (resp, ctx_of w client)"
  shows "serve H client r w = (resp, w)"
  using assms by (simp add: serve_def ctx_of_def)

lemma sequential_nth:
  assumes "sequential_user_ids d" and "i < length (users d)"
  shows "u_id (users d ! i) = Suc i"
proof -
  have "u_id (users d ! i) = map u_id (users d) ! i"
    using assms(2) by simp
  also have "\<dots> = [Suc 0..<Suc (length (users d))] ! i"
    using assms(1) by (simp add: sequential_user_ids_def)
  also have "\<dots> = Suc i"
    using assms(2) by (simp del: upt_Suc)
  finally show ?thesis .
qed

lemma register_first:
  assumes "users (db c) = []"
  shows "s_user_id (sess (snd (register H salt (Some f) c))) = Some 1"
  using assms
  by (simp add: register_def select_user_by_email_def add_user_def Let_def next_id_def
        login_user_def)

section \<open>Referential integrity\<close>

lemma delete_post_admin:
  assumes "reachable H w" and "s_user_id (w_sessions w client) = Some 1"
    and "live_post (w_db w) post_id"
  shows "serve H client (Req_delete_post post_id) w =
           (Redirect EP_get_all_posts,
            w\<lparr>w_db := (w_db w)
               \<lparr>blog_posts := filter (\<lambda>q. p_id q \<noteq> post_id) (blog_posts (w_db w)),
                comments := map (\<lambda>cm. if c_post_id cm = Some post_id
                                        then cm\<lparr>c_post_id := None\<rparr> else cm)
                                (comments (w_db w))\<rparr>\<rparr>)"
proof -
  let ?c = "ctx_of w client"
  have "find (\<lambda>r. p_id r = post_id) (blog_posts (w_db w)) \<noteq> None"
    using assms(3) by (auto simp: live_post_def find_None_iff)
  then obtain p where p: "get_or_404 p_id (blog_posts (db ?c)) post_id = Inr p"
    by (auto simp: get_or_404_def ctx_of_def)
  have pid: "p_id p = post_id"
    using get_or_404_Inr [OF p] by simp
  have "delete_post post_id ?c = delete_post_body post_id ?c"
    using admin_only_reachable [OF assms(1), of "delete_post_body post_id" client] assms(2)
    by (simp add: delete_post_def)
  also have "\<dots> = (Redirect EP_get_all_posts, ?c\<lparr>db := delete_blog_post (db ?c) p\<rparr>)"
    by (simp add: delete_post_body_def p)
  finally have "route H (Req_delete_post post_id) \<lparr>db = w_db w, sess = w_sessions w client\<rparr> =
      (Redirect EP_get_all_posts,
       \<lparr>db = delete_blog_post (w_db w) p, sess = w_sessions w client\<rparr>)"
    by (simp add: ctx_of_def)
  then show ?thesis
    by (simp add: serve_def delete_blog_post_def pid)
qed


text \<open>
  C1 (as the specification states it, refuted): after the first user registered, wrote two
  posts, commented on the first and deleted it, the comment row is still stored and its post
  reference is NULL, so not every comment of a reachable state references a live post.
\<close>

theorem deleted_post_leaves_comment_without_post:
  "reachable demo_hasher world5 \<and> \<not> references_live (w_db world5)"
  using worlds_reachable(5)
  by (simp add: references_live_def comments_have_post_def refers_to_def world5_value)

text \<open>
  C1 (amended): in every reachable state every comment references a live user, every post
  references a live user, and the post reference of every comment is either a live post or
  NULL. Delete-post keeps this: requested by the admin for an existing post, it redirects to
  the listing, removes the post's row, sets the post reference of the comments of that post
  to NULL and keeps every comment row; users and sessions are unchanged.
\<close>

theorem reachable_references_live_or_null:
  assumes "reachable H w"
  shows "comments_have_author (w_db w) \<and> posts_have_author (w_db w)
       \<and> comments_have_post_or_null (w_db w)
       \<and> (\<forall>client post_id.
             s_user_id (w_sessions w client) = Some 1 \<and> live_post (w_db w) post_id \<longrightarrow>
             serve H client (Req_delete_post post_id) w =
               (Redirect EP_get_all_posts,
                w\<lparr>w_db := (w_db w)
                   \<lparr>blog_posts := filter (\<lambda>q. p_id q \<noteq> post_id) (blog_posts (w_db w)),
                    comments := map (\<lambda>cm. if c_post_id cm = Some post_id
                                            then cm\<lparr>c_post_id := None\<rparr> else cm)
                                    (comments (w_db w))\<rparr>\<rparr>))"
proof -
  have "comments_have_author (w_db w) \<and> posts_have_author (w_db w)
       \<and> comments_have_post_or_null (w_db w)"
    using reachable_ok [OF assms]
    by (simp add: world_ok_def database_ok_def references_live_or_null_def)
  then show ?thesis
    using delete_post_admin [OF assms] by blast
qed

theorem reachable_references_live_or_null_witness:
  "reachable demo_hasher world4 \<and> s_user_id (w_sessions world4 0) = Some 1
   \<and> live_post (w_db world4) 1
   \<and> comments_have_author (w_db world4) \<and> posts_have_author (w_db world4)
   \<and> comments_have_post_or_null (w_db world4)
   \<and> serve demo_hasher 0 (Req_delete_post 1) world4 =
        (Redirect EP_get_all_posts,
         world4\<lparr>w_db := (w_db world4)
            \<lparr>blog_posts := [\<lparr>p_id = 2, p_author_id = Some 1, p_title = ''Second'',
                             p_subtitle = ''Sub'', p_date = ''April 05, 2024'',
                             p_body = ''Body'', p_img_url = ''http://img''\<rparr>],
             comments := [\<lparr>c_id = 1, c_author_id = Some 1, c_post_id = None,
                           c_text = ''Nice''\<rparr>]\<rparr>\<rparr>)"
proof -
  have s: "s_user_id (w_sessions world4 0) = Some 1" and l: "live_post (w_db world4) 1"
    by (simp_all add: world4_value live_post_def)
  have f: "filter (\<lambda>q. p_id q \<noteq> 1) (blog_posts (w_db world4)) =
             [\<lparr>p_id = 2, p_author_id = Some 1, p_title = ''Second'',
                             p_subtitle = ''Sub'', p_date = ''April 05, 2024'',
                             p_body = ''Body'', p_img_url = ''http://img''\<rparr>]"
    and m: "map (\<lambda>cm. if c_post_id cm = Some 1 then cm\<lparr>c_post_id := None\<rparr> else cm)
              (comments (w_db world4)) =
             [\<lparr>c_id = 1, c_author_id = Some 1, c_post_id = None, c_text = ''Nice''\<rparr>]"
    by (simp_all add: world4_value)
  note inst = reachable_references_live_or_null [OF worlds_reachable(4)]
  have d: "serve demo_hasher 0 (Req_delete_post 1) world4 =
        (Redirect EP_get_all_posts,
         world4\<lparr>w_db := (w_db world4)
            \<lparr>blog_posts := filter (\<lambda>q. p_id q \<noteq> 1) (blog_posts (w_db world4)),
             comments := map (\<lambda>cm. if c_post_id cm = Some 1 then cm\<lparr>c_post_id := None\<rparr>
                                      else cm)
                             (comments (w_db world4))\<rparr>\<rparr>)"
    using inst s l by blast
  show ?thesis
    using inst worlds_reachable(4) s l d [unfolded f m] by blast
qed

section \<open>The admin guard\<close>

text \<open>
  C3: in every reachable state, a request to \<^verbatim>\<open>/new-post\<close>, \<^verbatim>\<open>/edit-post/<id>\<close> or
  \<^verbatim>\<open>/delete/<id>\<close> from a client whose session is anonymous or holds a user id other
  than 1 is answered with 403 and leaves the whole state (users, posts, comments and every
  session) as it was; the guard's answer does not depend on the wrapped handler, which is
  never run.
\<close>

theorem admin_routes_forbidden:
  assumes "reachable H w" and "s_user_id (w_sessions w client) \<noteq> Some 1"
  shows "(\<forall>function. admin_only function (ctx_of w client) = (Abort 403, ctx_of w client))
       \<and> serve H client (Req_add_new_post today f) w = (Abort 403, w)
       \<and> serve H client (Req_edit_post post_id f) w = (Abort 403, w)
       \<and> serve H client (Req_delete_post post_id) w = (Abort 403, w)"
proof -
  have guard: "admin_only g (ctx_of w client) = (Abort 403, ctx_of w client)" for g
    using admin_only_reachable [OF assms(1)] assms(2) by simp
  have "serve H client (Req_add_new_post today f) w = (Abort 403, w)"
    by (rule serve_unchanged) (simp add: add_new_post_def guard)
  moreover have "serve H client (Req_edit_post post_id f) w = (Abort 403, w)"
    by (rule serve_unchanged) (simp add: edit_post_def guard)
  moreover have "serve H client (Req_delete_post post_id) w = (Abort 403, w)"
    by (rule serve_unchanged) (simp add: delete_post_def guard)
  ultimately show ?thesis using guard by blast
qed

theorem admin_routes_forbidden_witness:
  "reachable demo_hasher world6 \<and> s_user_id (w_sessions world6 7) \<noteq> Some 1
   \<and> admin_only (delete_post_body 1) (ctx_of world6 7) = (Abort 403, ctx_of world6 7)
   \<and> serve demo_hasher 7 (Req_add_new_post demo_today (Some (demo_post_form ''Third''))) world6
       = (Abort 403, world6)
   \<and> serve demo_hasher 7 (Req_edit_post 1 (Some (demo_post_form ''Third''))) world6
       = (Abort 403, world6)
   \<and> serve demo_hasher 7 (Req_delete_post 1) world6 = (Abort 403, world6)"
proof -
  have h: "s_user_id (w_sessions world6 7) \<noteq> Some 1"
    by (simp add: world6_value)
  show ?thesis
    using admin_routes_forbidden [OF world6_reachable h] world6_reachable h by blast
qed

text \<open>
  C10: in every reachable state the ids of the user rows are sequential; the guard lets a
  request through exactly when the session holds the id 1; the user row with id 1 is the
  first row of the table and no other row has that id; and whoever registers on the empty
  table, with whatever form data, gets a session with the id 1.
\<close>

theorem first_user_is_admin:
  assumes "reachable H w"
  shows "sequential_user_ids (w_db w)
       \<and> (\<forall>function. admin_only function (ctx_of w client) =
             (if s_user_id (w_sessions w client) = Some 1 then function (ctx_of w client)
              else (Abort 403, ctx_of w client)))
       \<and> (\<forall>i < length (users (w_db w)). (u_id (users (w_db w) ! i) = 1) = (i = 0))
       \<and> (users (w_db w) = [] \<longrightarrow>
            (\<forall>salt f. s_user_id (w_sessions (snd (serve H client (Req_register salt (Some f)) w))
                                   client) = Some 1))"
proof -
  have seq: "sequential_user_ids (w_db w)"
    using reachable_ok [OF assms] by (simp add: world_ok_def database_ok_def)
  have first: "\<forall>i < length (users (w_db w)). (u_id (users (w_db w) ! i) = 1) = (i = 0)"
    using sequential_nth [OF seq] by auto
  have reg: "users (w_db w) = [] \<longrightarrow>
            (\<forall>salt f. s_user_id (w_sessions (snd (serve H client (Req_register salt (Some f)) w))
                                   client) = Some 1)"
  proof (intro impI allI)
    fix salt f
    assume "users (w_db w) = []"
    then have "s_user_id (sess (snd (register H salt (Some f)
                 \<lparr>db = w_db w, sess = w_sessions w client\<rparr>))) = Some 1"
      by (intro register_first) simp
    then show "s_user_id (w_sessions (snd (serve H client (Req_register salt (Some f)) w))
                                   client) = Some 1"
      by (simp add: serve_def case_prod_beta)
  qed
  show ?thesis
    using seq first reg admin_only_reachable [OF assms] by blast
qed

theorem first_user_is_admin_witness:
  "reachable demo_hasher world6 \<and> reachable demo_hasher initial_world
   \<and> sequential_user_ids (w_db world6)
   \<and> admin_only about (ctx_of world6 0) = about (ctx_of world6 0)
   \<and> admin_only about (ctx_of world6 7) = (Abort 403, ctx_of world6 7)
   \<and> u_id (users (w_db world6) ! 0) = 1 \<and> u_id (users (w_db world6) ! 1) \<noteq> 1
   \<and> s_user_id (w_sessions (snd (serve demo_hasher 3
          (Req_register ''saltsalt'' (Some demo_register_form)) initial_world)) 3) = Some 1"
proof -
  note a = first_user_is_admin [OF world6_reachable, of 0]
  note b = first_user_is_admin [OF world6_reachable, of 7]
  note c = first_user_is_admin [OF reachable_initial [of demo_hasher], of 3]
  have e: "users (w_db initial_world) = []"
    by (simp add: initial_world_def empty_database_def)
  have s0: "s_user_id (w_sessions world6 0) = Some 1" and s7: "s_user_id (w_sessions world6 7) \<noteq> Some 1"
    and len: "length (users (w_db world6)) = 2"
    by (simp_all add: world6_value)
  have "admin_only about (ctx_of world6 0) = about (ctx_of world6 0)"
    using a s0 by simp
  moreover have "admin_only about (ctx_of world6 7) = (Abort 403, ctx_of world6 7)"
    using b s7 by simp
  moreover have "u_id (users (w_db world6) ! 0) = 1" "u_id (users (w_db world6) ! 1) \<noteq> 1"
    using a len by simp_all
  moreover have "s_user_id (w_sessions (snd (serve demo_hasher 3
          (Req_register ''saltsalt'' (Some demo_register_form)) initial_world)) 3) = Some 1"
    using c e by blast
  ultimately show ?thesis
    using a world6_reachable reachable_initial [of demo_hasher] by blast
qed

section \<open>Lookups, dates and the contexts of the concrete run\<close>

lemma select_user_by_email_found:
  assumes "e \<in> set (map u_email (users d))"
  shows "\<exists>u. select_user_by_email d e = Some u"
proof -
  have "find (\<lambda>u. u_email u = e) (users d) \<noteq> None"
    using assms by (auto simp: find_None_iff)
  then show ?thesis by (auto simp: select_user_by_email_def)
qed

lemma select_user_by_email_missing:
  assumes "e \<notin> set (map u_email (users d))"
  shows "select_user_by_email d e = None"
  using assms by (auto simp: select_user_by_email_def find_None_iff)

lemma decimal_one_digit: "n < 10 \<Longrightarrow> decimal n = [digit n]"
  by (subst decimal.simps) simp

lemma decimal_step: "10 \<le> n \<Longrightarrow> decimal n = decimal (n div 10) @ [digit (n mod 10)]"
  by (subst decimal.simps) simp

lemma decimal_two_digits:
  assumes "10 \<le> n" and "n < 100"
  shows "decimal n = [digit (n div 10), digit (n mod 10)]"
proof -
  have "n div 10 < 10" using assms by simp
  then have "decimal (n div 10) = [digit (n div 10)]" by (rule decimal_one_digit)
  then show ?thesis using decimal_step [OF assms(1)] by simp
qed

lemma decimal_three_digits:
  assumes "100 \<le> n" and "n < 1000"
  shows "decimal n = [digit (n div 100), digit (n div 10 mod 10), digit (n mod 10)]"
proof -
  have "10 \<le> n div 10" "n div 10 < 100" using assms by simp_all
  then have "decimal (n div 10) = [digit (n div 10 div 10), digit (n div 10 mod 10)]"
    by (rule decimal_two_digits)
  moreover have "n div 10 div 10 = n div 100" by (simp add: div_mult2_eq [symmetric])
  moreover have "10 \<le> n" using assms by simp
  ultimately show ?thesis using decimal_step [of n] by simp
qed

lemma decimal_four_digits:
  assumes "1000 \<le> n" and "n < 10000"
  shows "decimal n = [digit (n div 1000), digit (n div 100 mod 10), digit (n div 10 mod 10),
                      digit (n mod 10)]"
proof -
  have "100 \<le> n div 10" "n div 10 < 1000" using assms by simp_all
  then have "decimal (n div 10) =
      [digit (n div 10 div 100), digit (n div 10 div 10 mod 10), digit (n div 10 mod 10)]"
    by (rule decimal_three_digits)
  moreover have "n div 10 div 100 = n div 1000" "n div 10 div 10 = n div 100"
    by (simp_all add: div_mult2_eq [symmetric])
  moreover have "10 \<le> n" using assms by simp
  ultimately show ?thesis using decimal_step [of n] by simp
qed

lemma zero_padded_day:
  assumes "1 \<le> d" and "d \<le> 31"
  shows "zero_padded 2 (decimal d) = [digit (d div 10), digit (d mod 10)]"
proof (cases "d < 10")
  case True
  then have "decimal d = [digit d]" by (rule decimal_one_digit)
  then show ?thesis using True by (simp add: zero_padded_def digit_def)
next
  case False
  then have "decimal d = [digit (d div 10), digit (d mod 10)]"
    using assms by (intro decimal_two_digits) simp_all
  then show ?thesis by (simp add: zero_padded_def)
qed

lemma strftime_format:
  assumes "1 \<le> day d" and "day d \<le> 31" and "1000 \<le> year d" and "year d \<le> 9999"
  shows "strftime_B_d_Y d =
           month_name (month_of d) @ '' '' @ [digit (day d div 10), digit (day d mod 10)]
             @ '', '' @ [digit (year d div 1000), digit (year d div 100 mod 10),
                         digit (year d div 10 mod 10), digit (year d mod 10)]"
proof -
  have "decimal (year d) = [digit (year d div 1000), digit (year d div 100 mod 10),
                         digit (year d div 10 mod 10), digit (year d mod 10)]"
    using assms by (intro decimal_four_digits) simp_all
  then show ?thesis
    by (simp only: strftime_B_d_Y_def zero_padded_day [OF assms(1,2)])
qed

lemma ctx_world4:
  "db (ctx_of world4 client) = w_db world4"
  "sess (ctx_of world4 0) = \<lparr>s_user_id = Some 1, s_flashes = []\<rparr>"
  "sess (ctx_of world4 7) = \<lparr>s_user_id = None, s_flashes = []\<rparr>"
  by (simp_all add: ctx_of_def world4_value new_session_def)

lemma current_user_world4:
  "current_user (ctx_of world4 0) =
     Inr (Some \<lparr>u_id = 1, u_name = ''Ann'', u_email = ''ann@example.com'',
                 u_password = ''pbkdf2:sha256$saltsalt$terces''\<rparr>)"
  "current_user (ctx_of world4 7) = Inr None"
  by (simp_all add: current_user_def load_user_def get_or_404_def ctx_world4 world4_value)

section \<open>Registration\<close>

text \<open>
  C6: a valid registration whose email is already the email of a user row creates no row:
  the handler returns a redirect to the login page, the database is the one it started with,
  the session keeps its user id, and the one change is the message flashed into the session.
\<close>

theorem register_existing_email:
  assumes "rf_email f \<in> set (map u_email (users (db c)))"
  shows "register H salt (Some f) c =
           (Redirect EP_login,
            c\<lparr>sess := (sess c)\<lparr>s_flashes := s_flashes (sess c)
                       @ [''You've signed up with this email, log in instead!'']\<rparr>\<rparr>)"
proof -
  obtain u where "select_user_by_email (db c) (rf_email f) = Some u"
    using select_user_by_email_found [OF assms] by blast
  then show ?thesis by (simp add: register_def flash_def)
qed

theorem register_existing_email_witness:
  "rf_email demo_register_form \<in> set (map u_email (users (db (ctx_of world4 7))))
   \<and> register demo_hasher ''saltsalt'' (Some demo_register_form) (ctx_of world4 7) =
       (Redirect EP_login,
        (ctx_of world4 7)\<lparr>sess := (sess (ctx_of world4 7))\<lparr>s_flashes :=
           s_flashes (sess (ctx_of world4 7))
             @ [''You've signed up with this email, log in instead!'']\<rparr>\<rparr>)"
proof -
  have h: "rf_email demo_register_form \<in> set (map u_email (users (db (ctx_of world4 7))))"
    by (simp add: ctx_world4 world4_value demo_register_form_def)
  show ?thesis by (rule conjI [OF h register_existing_email [OF h]])
qed

text \<open>
  C5: a valid registration whose email is not yet in the users table appends exactly one
  user row, with the submitted name and email and with the password column holding the
  hasher's output for the submitted password (which is not the submitted password wherever
  the hasher's output differs from its input); posts and comments are unchanged; the session
  holds the new row's id, which is a fresh id, so that the current user of the next request
  is the new user; the response redirects to the post listing.
\<close>

theorem register_fresh_email:
  assumes "rf_email f \<notin> set (map u_email (users (db c)))"
  shows "\<exists>new_user.
           register H salt (Some f) c =
             (Redirect EP_get_all_posts,
              \<lparr>db = (db c)\<lparr>users := users (db c) @ [new_user]\<rparr>,
               sess = (sess c)\<lparr>s_user_id := Some (u_id new_user)\<rparr>\<rparr>)
         \<and> u_name new_user = rf_name f \<and> u_email new_user = rf_email f
         \<and> u_password new_user = generate_password_hash H salt (rf_password f)
         \<and> (generate_password_hash H salt (rf_password f) \<noteq> rf_password f
              \<longrightarrow> u_password new_user \<noteq> rf_password f)
         \<and> u_id new_user \<notin> set (map u_id (users (db c)))
         \<and> current_user (snd (register H salt (Some f) c)) = Inr (Some new_user)"
proof -
  let ?u = "\<lparr>u_id = next_id (map u_id (users (db c))), u_name = rf_name f,
             u_email = rf_email f,
             u_password = generate_password_hash H salt (rf_password f)\<rparr>"
  let ?c' = "\<lparr>db = (db c)\<lparr>users := users (db c) @ [?u]\<rparr>,
              sess = (sess c)\<lparr>s_user_id := Some (u_id ?u)\<rparr>\<rparr>"
  have run: "register H salt (Some f) c = (Redirect EP_get_all_posts, ?c')"
    using assms select_user_by_email_missing [OF assms]
    by (simp add: register_def add_user_def Let_def login_user_def)
  have fresh: "u_id ?u \<notin> set (map u_id (users (db c)))"
    using next_id_fresh [of "map u_id (users (db c))"] by simp
  have "get_or_404 u_id (users (db c) @ [?u]) (u_id ?u) = Inr ?u"
    by (rule get_or_404_new) simp
  then have cur: "current_user ?c' = Inr (Some ?u)"
    by (simp add: current_user_def load_user_def)
  show ?thesis
    by (rule exI [of _ ?u]) (simp only: run fresh cur snd_conv, simp)
qed

theorem register_fresh_email_witness:
  "rf_email other_register_form \<notin> set (map u_email (users (db (ctx_of world4 7))))
   \<and> (\<exists>new_user.
         register demo_hasher ''pepper00'' (Some other_register_form) (ctx_of world4 7) =
           (Redirect EP_get_all_posts,
            \<lparr>db = (db (ctx_of world4 7))\<lparr>users := users (db (ctx_of world4 7)) @ [new_user]\<rparr>,
             sess = (sess (ctx_of world4 7))\<lparr>s_user_id := Some (u_id new_user)\<rparr>\<rparr>)
       \<and> u_password new_user = ''pbkdf2:sha256$pepper00$2retnuh''
       \<and> u_password new_user \<noteq> ''hunter2''
       \<and> current_user (snd (register demo_hasher ''pepper00'' (Some other_register_form)
                               (ctx_of world4 7))) = Inr (Some new_user))"
proof -
  have h: "rf_email other_register_form \<notin> set (map u_email (users (db (ctx_of world4 7))))"
    by (simp add: ctx_world4 world4_value other_register_form_def)
  have g: "generate_password_hash demo_hasher ''pepper00'' (rf_password other_register_form)
             = ''pbkdf2:sha256$pepper00$2retnuh''"
    by (simp add: demo_hasher_def other_register_form_def)
  from register_fresh_email [OF h, of demo_hasher "''pepper00''"] obtain new_user where
    "register demo_hasher ''pepper00'' (Some other_register_form) (ctx_of world4 7) =
           (Redirect EP_get_all_posts,
            \<lparr>db = (db (ctx_of world4 7))\<lparr>users := users (db (ctx_of world4 7)) @ [new_user]\<rparr>,
             sess = (sess (ctx_of world4 7))\<lparr>s_user_id := Some (u_id new_user)\<rparr>\<rparr>)"
    and "u_password new_user
           = generate_password_hash demo_hasher ''pepper00'' (rf_password other_register_form)"
    and "current_user (snd (register demo_hasher ''pepper00'' (Some other_register_form)
                               (ctx_of world4 7))) = Inr (Some new_user)"
    by blast
  then show ?thesis using h g by (intro conjI exI [of _ new_user]) simp_all
qed

section \<open>Login\<close>

text \<open>
  C7: a valid login whose email is the email of a user row finds that row; when the submitted
  password verifies against the row's stored hash, the session gets the row's id and the
  response redirects to the listing, with the database unchanged; when it does not verify,
  the database and the session's user id are unchanged, the message
  \<^verbatim>\<open>Incorrect password, please try again.\<close> is flashed, and the response redirects to the
  login page.
\<close>

theorem login_existing_email:
  assumes "lf_email f \<in> set (map u_email (users (db c)))"
  shows "\<exists>u. select_user_by_email (db c) (lf_email f) = Some u \<and> u \<in> set (users (db c))
           \<and> u_email u = lf_email f
           \<and> (check_password_hash H (u_password u) (lf_password f) \<longrightarrow>
                 login H (Some f) c =
                   (Redirect EP_get_all_posts, c\<lparr>sess := (sess c)\<lparr>s_user_id := Some (u_id u)\<rparr>\<rparr>))
           \<and> (\<not> check_password_hash H (u_password u) (lf_password f) \<longrightarrow>
                 login H (Some f) c =
                   (Redirect EP_login,
                    c\<lparr>sess := (sess c)\<lparr>s_flashes := s_flashes (sess c)
                         @ [''Incorrect password, please try again.'']\<rparr>\<rparr>))"
proof -
  obtain u where u: "select_user_by_email (db c) (lf_email f) = Some u"
    using select_user_by_email_found [OF assms] by blast
  show ?thesis
    using u select_user_by_email_Some [OF u]
    by (intro exI [of _ u]) (simp add: login_def check_password_def login_user_def flash_def)
qed

theorem login_existing_email_witness:
  "lf_email \<lparr>lf_email = ''ann@example.com'', lf_password = ''secret''\<rparr>
     \<in> set (map u_email (users (db (ctx_of world4 7))))
   \<and> login demo_hasher (Some \<lparr>lf_email = ''ann@example.com'', lf_password = ''secret''\<rparr>)
        (ctx_of world4 7) =
       (Redirect EP_get_all_posts,
        (ctx_of world4 7)\<lparr>sess := (sess (ctx_of world4 7))\<lparr>s_user_id := Some 1\<rparr>\<rparr>)
   \<and> login demo_hasher (Some \<lparr>lf_email = ''ann@example.com'', lf_password = ''guess''\<rparr>)
        (ctx_of world4 7) =
       (Redirect EP_login,
        (ctx_of world4 7)\<lparr>sess := (sess (ctx_of world4 7))\<lparr>s_flashes :=
           s_flashes (sess (ctx_of world4 7)) @ [''Incorrect password, please try again.'']\<rparr>\<rparr>)"
proof -
  let ?ann = "\<lparr>u_id = 1, u_name = ''Ann'', u_email = ''ann@example.com'',
                 u_password = ''pbkdf2:sha256$saltsalt$terces''\<rparr>"
  have h: "lf_email \<lparr>lf_email = ''ann@example.com'', lf_password = pw\<rparr>
     \<in> set (map u_email (users (db (ctx_of world4 7))))" for pw
    by (simp add: ctx_world4 world4_value)
  have sel: "select_user_by_email (db (ctx_of world4 7)) ''ann@example.com'' = Some ?ann"
    by (simp add: select_user_by_email_def ctx_world4 world4_value)
  have good: "check_password_hash demo_hasher (u_password ?ann) ''secret''"
    and bad: "\<not> check_password_hash demo_hasher (u_password ?ann) ''guess''"
    by (simp_all add: demo_hasher_def)
  have "login demo_hasher (Some \<lparr>lf_email = ''ann@example.com'', lf_password = ''secret''\<rparr>)
        (ctx_of world4 7) =
       (Redirect EP_get_all_posts,
        (ctx_of world4 7)\<lparr>sess := (sess (ctx_of world4 7))\<lparr>s_user_id := Some 1\<rparr>\<rparr>)"
    using login_existing_email [OF h [of "''secret''"], of demo_hasher] sel good by auto
  moreover have
    "login demo_hasher (Some \<lparr>lf_email = ''ann@example.com'', lf_password = ''guess''\<rparr>)
        (ctx_of world4 7) =
       (Redirect EP_login,
        (ctx_of world4 7)\<lparr>sess := (sess (ctx_of world4 7))\<lparr>s_flashes :=
           s_flashes (sess (ctx_of world4 7)) @ [''Incorrect password, please try again.'']\<rparr>\<rparr>)"
    using login_existing_email [OF h [of "''guess''"], of demo_hasher] sel bad by auto
  ultimately show ?thesis using h [of "''secret''"] by blast
qed

section \<open>Comments\<close>

text \<open>
  C4: on the detail page of an existing post, a valid comment submission of an anonymous
  caller creates no row and redirects to the login page (the database is unchanged; a
  message is flashed); the submission of an authenticated caller appends exactly one comment
  row, with a fresh id, the requested post's id, the current user's id and the submitted
  text, leaves users, posts and the session unchanged, and redirects to the same detail page.
\<close>

theorem comment_submission:
  assumes "live_post (db c) post_id"
  shows "(s_user_id (sess c) = None \<longrightarrow>
            show_post post_id (Some t) c =
              (Redirect EP_login,
               c\<lparr>sess := (sess c)\<lparr>s_flashes := s_flashes (sess c)
                    @ [''Please log in to live comments on blog posts!'']\<rparr>\<rparr>))
       \<and> (\<forall>u. current_user c = Inr (Some u) \<longrightarrow>
            (\<exists>new_comment.
               show_post post_id (Some t) c =
                 (Redirect (EP_show_post post_id),
                  c\<lparr>db := (db c)\<lparr>comments := comments (db c) @ [new_comment]\<rparr>\<rparr>)
               \<and> c_post_id new_comment = Some post_id
               \<and> c_author_id new_comment = Some (u_id u)
               \<and> c_text new_comment = t
               \<and> c_id new_comment \<notin> set (map c_id (comments (db c)))))"
proof -
  have "find (\<lambda>r. p_id r = post_id) (blog_posts (db c)) \<noteq> None"
    using assms by (auto simp: live_post_def find_None_iff)
  then obtain p where p: "get_or_404 p_id (blog_posts (db c)) post_id = Inr p"
    by (auto simp: get_or_404_def)
  have anon: "s_user_id (sess c) = None \<longrightarrow>
            show_post post_id (Some t) c =
              (Redirect EP_login,
               c\<lparr>sess := (sess c)\<lparr>s_flashes := s_flashes (sess c)
                    @ [''Please log in to live comments on blog posts!'']\<rparr>\<rparr>)"
    by (simp add: show_post_def p current_user_def flash_def)
  have auth: "\<exists>new_comment.
               show_post post_id (Some t) c =
                 (Redirect (EP_show_post post_id),
                  c\<lparr>db := (db c)\<lparr>comments := comments (db c) @ [new_comment]\<rparr>\<rparr>)
               \<and> c_post_id new_comment = Some post_id
               \<and> c_author_id new_comment = Some (u_id u)
               \<and> c_text new_comment = t
               \<and> c_id new_comment \<notin> set (map c_id (comments (db c)))"
    if u: "current_user c = Inr (Some u)" for u
  proof -
    let ?cm = "\<lparr>c_id = next_id (map c_id (comments (db c))), c_author_id = Some (u_id u),
                c_post_id = Some post_id, c_text = t\<rparr>"
    have "show_post post_id (Some t) c =
            (Redirect (EP_show_post post_id),
             c\<lparr>db := (db c)\<lparr>comments := comments (db c) @ [?cm]\<rparr>\<rparr>)"
      by (simp add: show_post_def p u add_comment_def Let_def)
    moreover have "c_id ?cm \<notin> set (map c_id (comments (db c)))"
      using next_id_fresh [of "map c_id (comments (db c))"] by simp
    ultimately show ?thesis
      by (intro exI [of _ ?cm]) simp
  qed
  show ?thesis using anon auth by blast
qed

theorem comment_submission_witness:
  "live_post (db (ctx_of world4 7)) 1
   \<and> show_post 1 (Some ''Hi'') (ctx_of world4 7) =
       (Redirect EP_login,
        (ctx_of world4 7)\<lparr>sess := (sess (ctx_of world4 7))\<lparr>s_flashes :=
           s_flashes (sess (ctx_of world4 7))
             @ [''Please log in to live comments on blog posts!'']\<rparr>\<rparr>)
   \<and> (\<exists>new_comment.
         show_post 1 (Some ''Hi'') (ctx_of world4 0) =
           (Redirect (EP_show_post 1),
            (ctx_of world4 0)\<lparr>db := (db (ctx_of world4 0))\<lparr>comments :=
               comments (db (ctx_of world4 0)) @ [new_comment]\<rparr>\<rparr>)
       \<and> c_post_id new_comment = Some 1 \<and> c_author_id new_comment = Some 1
       \<and> c_text new_comment = ''Hi''
       \<and> c_id new_comment \<notin> set (map c_id (comments (db (ctx_of world4 0)))))"
proof -
  have h: "live_post (db (ctx_of world4 client)) 1" for client
    by (simp add: live_post_def ctx_world4 world4_value)
  have anon: "s_user_id (sess (ctx_of world4 7)) = None"
    by (simp add: ctx_world4)
  have a: "show_post 1 (Some ''Hi'') (ctx_of world4 7) =
       (Redirect EP_login,
        (ctx_of world4 7)\<lparr>sess := (sess (ctx_of world4 7))\<lparr>s_flashes :=
           s_flashes (sess (ctx_of world4 7))
             @ [''Please log in to live comments on blog posts!'']\<rparr>\<rparr>)"
    using comment_submission [OF h [of 7], of "''Hi''"] anon by blast
  have b: "\<exists>new_comment.
         show_post 1 (Some ''Hi'') (ctx_of world4 0) =
           (Redirect (EP_show_post 1),
            (ctx_of world4 0)\<lparr>db := (db (ctx_of world4 0))\<lparr>comments :=
               comments (db (ctx_of world4 0)) @ [new_comment]\<rparr>\<rparr>)
       \<and> c_post_id new_comment = Some 1 \<and> c_author_id new_comment = Some 1
       \<and> c_text new_comment = ''Hi''
       \<and> c_id new_comment \<notin> set (map c_id (comments (db (ctx_of world4 0))))"
    using comment_submission [OF h [of 0], of "''Hi''"] current_user_world4(1) by fastforce
  show ?thesis using h [of 7] a b by blast
qed

section \<open>Editing and creating posts\<close>

lemma edit_post_unique_title:
  assumes "current_user c = Inr (Some u)" and "u_id u = 1"
    and "get_or_404 p_id (blog_posts (db c)) post_id = Inr post"
    and "\<forall>q \<in> set (blog_posts (db c)). p_id q \<noteq> post_id \<longrightarrow> p_title q \<noteq> pf_title f"
  shows "\<exists>edited.
           edit_post post_id (Some f) c =
             (Redirect (EP_show_post post_id),
              c\<lparr>db := (db c)\<lparr>blog_posts :=
                    map (\<lambda>q. if p_id q = post_id then edited else q) (blog_posts (db c))\<rparr>\<rparr>)
         \<and> edited = \<lparr>p_id = post_id, p_author_id = Some (u_id u), p_title = pf_title f,
                      p_subtitle = pf_subtitle f, p_date = p_date post, p_body = pf_body f,
                      p_img_url = pf_img_url f\<rparr>
         \<and> get_or_404 p_id
              (map (\<lambda>q. if p_id q = post_id then edited else q) (blog_posts (db c))) post_id
             = Inr edited"
proof -
  let ?e = "post\<lparr>p_title := pf_title f, p_subtitle := pf_subtitle f,
                  p_img_url := pf_img_url f, p_author_id := Some (u_id u),
                  p_body := pf_body f\<rparr>"
  have pid: "p_id post = post_id" and mem: "post \<in> set (blog_posts (db c))"
    using get_or_404_Inr [OF assms(3)] by simp_all
  have e: "?e = \<lparr>p_id = post_id, p_author_id = Some (u_id u), p_title = pf_title f,
                      p_subtitle = pf_subtitle f, p_date = p_date post, p_body = pf_body f,
                      p_img_url = pf_img_url f\<rparr>"
    using pid by simp
  have upd: "update_blog_post (db c) ?e =
      Inr ((db c)\<lparr>blog_posts := map (\<lambda>q. if p_id q = post_id then ?e else q) (blog_posts (db c))\<rparr>)"
    using assms(4) pid by (auto simp: update_blog_post_def)
  have guard: "edit_post post_id (Some f) c = edit_post_body post_id (Some f) c"
    using assms(1,2) by (simp add: edit_post_def admin_only_def)
  have run: "edit_post post_id (Some f) c =
             (Redirect (EP_show_post post_id),
              c\<lparr>db := (db c)\<lparr>blog_posts :=
                    map (\<lambda>q. if p_id q = post_id then ?e else q) (blog_posts (db c))\<rparr>\<rparr>)"
    by (simp add: guard edit_post_body_def assms(1,3) upd pid)
  have fnd: "find (\<lambda>r. p_id r = post_id) (map (\<lambda>q. if p_id q = post_id then ?e else q) xs)
               = Some ?e"
    if "\<exists>x \<in> set xs. p_id x = post_id" for xs
    using that pid by (induction xs) auto
  have "\<exists>x \<in> set (blog_posts (db c)). p_id x = post_id"
    using mem pid by blast
  then have "find (\<lambda>r. p_id r = post_id)
               (map (\<lambda>q. if p_id q = post_id then ?e else q) (blog_posts (db c))) = Some ?e"
    by (rule fnd)
  then have fetch: "get_or_404 p_id
              (map (\<lambda>q. if p_id q = post_id then ?e else q) (blog_posts (db c))) post_id
             = Inr ?e"
    by (simp only: get_or_404_def option.case)
  show ?thesis
    using run fetch e by (intro exI [of _ ?e]) simp
qed


lemma edit_post_taken_title:
  assumes "current_user c = Inr (Some u)" and "u_id u = 1"
    and "get_or_404 p_id (blog_posts (db c)) post_id = Inr post"
    and "\<exists>q \<in> set (blog_posts (db c)). p_id q \<noteq> post_id \<and> p_title q = pf_title f"
  shows "edit_post post_id (Some f) c = (Internal_server_error, c)"
proof -
  let ?e = "post\<lparr>p_title := pf_title f, p_subtitle := pf_subtitle f,
                  p_img_url := pf_img_url f, p_author_id := Some (u_id u),
                  p_body := pf_body f\<rparr>"
  have pid: "p_id post = post_id"
    using get_or_404_Inr [OF assms(3)] by simp
  have upd: "update_blog_post (db c) ?e = Inl Internal_server_error"
    using assms(4) pid by (auto simp: update_blog_post_def)
  have guard: "edit_post post_id (Some f) c = edit_post_body post_id (Some f) c"
    using assms(1,2) by (simp add: edit_post_def admin_only_def)
  show ?thesis
    by (simp add: guard edit_post_body_def assms(1,3) upd)
qed

text \<open>
  C8 (as the specification states it, refuted): in the reachable state with the posts
  \<^verbatim>\<open>First\<close> and \<^verbatim>\<open>Second\<close>, the admin's valid edit of post 2 that submits the title
  \<^verbatim>\<open>First\<close> breaks the unique constraint of the title column at commit: the answer is a
  server error, not a redirect, and nothing is overwritten.
\<close>

theorem edit_post_duplicate_title_fails:
  "reachable demo_hasher world4
   \<and> current_user (ctx_of world4 0) =
       Inr (Some \<lparr>u_id = 1, u_name = ''Ann'', u_email = ''ann@example.com'',
                   u_password = ''pbkdf2:sha256$saltsalt$terces''\<rparr>)
   \<and> live_post (db (ctx_of world4 0)) 2
   \<and> edit_post 2 (Some (demo_post_form ''First'')) (ctx_of world4 0)
       = (Internal_server_error, ctx_of world4 0)"
  using worlds_reachable(4) current_user_world4(1)
  by (simp add: live_post_def ctx_world4 world4_value edit_post_def admin_only_def
        edit_post_body_def get_or_404_def update_blog_post_def demo_post_form_def)

text \<open>
  C8 (amended): a valid edit submission by the admin on an existing post, whose submitted
  title is not the title of another post, overwrites title, subtitle, image URL and body
  with the submitted values, sets the author to the current admin user, keeps the post's id
  and creation date, and redirects to the post's detail page; every other post, the users,
  the comments and the session are unchanged, and loading the post afterwards yields the
  edited row. When the submitted title is the title of another post, the answer is a server
  error and the context, the post included, is exactly as before.
\<close>

theorem edit_post_overwrites:
  assumes "current_user c = Inr (Some u)" and "u_id u = 1"
    and "get_or_404 p_id (blog_posts (db c)) post_id = Inr post"
  shows "((\<forall>q \<in> set (blog_posts (db c)). p_id q \<noteq> post_id \<longrightarrow> p_title q \<noteq> pf_title f) \<longrightarrow>
          (\<exists>edited.
             edit_post post_id (Some f) c =
               (Redirect (EP_show_post post_id),
                c\<lparr>db := (db c)\<lparr>blog_posts :=
                      map (\<lambda>q. if p_id q = post_id then edited else q) (blog_posts (db c))\<rparr>\<rparr>)
           \<and> edited = \<lparr>p_id = post_id, p_author_id = Some (u_id u), p_title = pf_title f,
                        p_subtitle = pf_subtitle f, p_date = p_date post, p_body = pf_body f,
                        p_img_url = pf_img_url f\<rparr>
           \<and> get_or_404 p_id
                (map (\<lambda>q. if p_id q = post_id then edited else q) (blog_posts (db c))) post_id
               = Inr edited))
       \<and> ((\<exists>q \<in> set (blog_posts (db c)). p_id q \<noteq> post_id \<and> p_title q = pf_title f) \<longrightarrow>
            edit_post post_id (Some f) c = (Internal_server_error, c))"
  using edit_post_unique_title [OF assms] edit_post_taken_title [OF assms] by blast

theorem edit_post_overwrites_witness:
  "current_user (ctx_of world4 0) =
       Inr (Some \<lparr>u_id = 1, u_name = ''Ann'', u_email = ''ann@example.com'',
                   u_password = ''pbkdf2:sha256$saltsalt$terces''\<rparr>)
   \<and> (\<exists>edited.
         edit_post 2 (Some (demo_post_form ''Renamed'')) (ctx_of world4 0) =
           (Redirect (EP_show_post 2),
            (ctx_of world4 0)\<lparr>db := (db (ctx_of world4 0))\<lparr>blog_posts :=
               map (\<lambda>q. if p_id q = 2 then edited else q)
                 (blog_posts (db (ctx_of world4 0)))\<rparr>\<rparr>)
       \<and> edited = \<lparr>p_id = 2, p_author_id = Some 1, p_title = ''Renamed'', p_subtitle = ''Sub'',
                    p_date = ''April 05, 2024'', p_body = ''Body'', p_img_url = ''http://img''\<rparr>
       \<and> get_or_404 p_id
            (map (\<lambda>q. if p_id q = 2 then edited else q) (blog_posts (db (ctx_of world4 0)))) 2
           = Inr edited)
   \<and> edit_post 2 (Some (demo_post_form ''First'')) (ctx_of world4 0)
       = (Internal_server_error, ctx_of world4 0)"
proof -
  let ?ann = "\<lparr>u_id = 1, u_name = ''Ann'', u_email = ''ann@example.com'',
                 u_password = ''pbkdf2:sha256$saltsalt$terces''\<rparr>"
  let ?second = "\<lparr>p_id = 2, p_author_id = Some 1, p_title = ''Second'', p_subtitle = ''Sub'',
                    p_date = ''April 05, 2024'', p_body = ''Body'', p_img_url = ''http://img''\<rparr>"
  have cu: "current_user (ctx_of world4 0) = Inr (Some ?ann)"
    by (rule current_user_world4(1))
  have adm: "u_id ?ann = 1" by simp
  have ld: "get_or_404 p_id (blog_posts (db (ctx_of world4 0))) 2 = Inr ?second"
    by (simp add: get_or_404_def ctx_world4 world4_value)
  have free: "\<forall>q \<in> set (blog_posts (db (ctx_of world4 0))).
                p_id q \<noteq> 2 \<longrightarrow> p_title q \<noteq> pf_title (demo_post_form ''Renamed'')"
    by (simp add: ctx_world4 world4_value demo_post_form_def)
  have taken: "\<exists>q \<in> set (blog_posts (db (ctx_of world4 0))).
                p_id q \<noteq> 2 \<and> p_title q = pf_title (demo_post_form ''First'')"
    by (simp add: ctx_world4 world4_value demo_post_form_def)
  have ok: "\<exists>edited.
         edit_post 2 (Some (demo_post_form ''Renamed'')) (ctx_of world4 0) =
           (Redirect (EP_show_post 2),
            (ctx_of world4 0)\<lparr>db := (db (ctx_of world4 0))\<lparr>blog_posts :=
               map (\<lambda>q. if p_id q = 2 then edited else q)
                 (blog_posts (db (ctx_of world4 0)))\<rparr>\<rparr>)
       \<and> edited = \<lparr>p_id = 2, p_author_id = Some 1, p_title = ''Renamed'', p_subtitle = ''Sub'',
                    p_date = ''April 05, 2024'', p_body = ''Body'', p_img_url = ''http://img''\<rparr>
       \<and> get_or_404 p_id
            (map (\<lambda>q. if p_id q = 2 then edited else q) (blog_posts (db (ctx_of world4 0)))) 2
           = Inr edited"
    using edit_post_overwrites [OF cu adm ld, of "demo_post_form ''Renamed''"] free
    by (simp add: demo_post_form_def)
  have fails: "edit_post 2 (Some (demo_post_form ''First'')) (ctx_of world4 0)
       = (Internal_server_error, ctx_of world4 0)"
    using edit_post_overwrites [OF cu adm ld, of "demo_post_form ''First''"] taken by blast
  show ?thesis using cu ok fails by blast
qed

text \<open>
  C9: when the admin creates a post with a title no post has yet, on a day of the years 1000
  to 9999, the creation redirects to the listing, and fetching the detail page of the new
  post renders exactly the submitted title, subtitle, body and image URL, with the date made
  of the English name of the month (\<^verbatim>\<open>January\<close> to \<^verbatim>\<open>December\<close>), a space, the day in two
  digits, a comma and a space, and the year in four digits.
\<close>

theorem new_post_round_trip:
  assumes "current_user c = Inr (Some u)" and "u_id u = 1"
    and "pf_title f \<notin> set (map p_title (blog_posts (db c)))"
    and "1 \<le> day today" and "day today \<le> 31"
    and "1000 \<le> year today" and "year today \<le> 9999"
  shows "\<exists>new_post c'.
           add_new_post today (Some f) c = (Redirect EP_get_all_posts, c')
         \<and> show_post (p_id new_post) None c' =
             (Render (Post_html new_post
                (filter (\<lambda>cm. c_post_id cm = Some (p_id new_post)) (comments (db c')))), c')
         \<and> p_title new_post = pf_title f \<and> p_subtitle new_post = pf_subtitle f
         \<and> p_body new_post = pf_body f \<and> p_img_url new_post = pf_img_url f
         \<and> p_date new_post =
             (case month_of today of
                    January \<Rightarrow> ''January''
                  | February \<Rightarrow> ''February''
                  | March \<Rightarrow> ''March''
                  | April \<Rightarrow> ''April''
                  | May \<Rightarrow> ''May''
                  | June \<Rightarrow> ''June''
                  | July \<Rightarrow> ''July''
                  | August \<Rightarrow> ''August''
                  | September \<Rightarrow> ''September''
                  | October \<Rightarrow> ''October''
                  | November \<Rightarrow> ''November''
                  | December \<Rightarrow> ''December'') @ '' ''
               @ [''0123456789'' ! (day today div 10), ''0123456789'' ! (day today mod 10)]
               @ '', ''
               @ [''0123456789'' ! (year today div 1000),
                  ''0123456789'' ! (year today div 100 mod 10),
                  ''0123456789'' ! (year today div 10 mod 10),
                  ''0123456789'' ! (year today mod 10)]"
proof -
  let ?p = "\<lparr>p_id = next_id (map p_id (blog_posts (db c))), p_author_id = Some (u_id u),
             p_title = pf_title f, p_subtitle = pf_subtitle f,
             p_date = strftime_B_d_Y today, p_body = pf_body f, p_img_url = pf_img_url f\<rparr>"
  let ?c' = "c\<lparr>db := (db c)\<lparr>blog_posts := blog_posts (db c) @ [?p]\<rparr>\<rparr>"
  have run: "add_new_post today (Some f) c = (Redirect EP_get_all_posts, ?c')"
    using assms(1,2,3)
    by (simp add: add_new_post_def admin_only_def add_new_post_body_def add_blog_post_def Let_def)
  have "get_or_404 p_id (blog_posts (db c) @ [?p]) (p_id ?p) = Inr ?p"
    by (rule get_or_404_new) simp
  then have fetch: "show_post (p_id ?p) None ?c' =
             (Render (Post_html ?p
                (filter (\<lambda>cm. c_post_id cm = Some (p_id ?p)) (comments (db ?c')))), ?c')"
    by (simp add: show_post_def)
  have mn: "month_name (month_of today) =
             (case month_of today of
                 January \<Rightarrow> ''January''
               | February \<Rightarrow> ''February''
               | March \<Rightarrow> ''March''
               | April \<Rightarrow> ''April''
               | May \<Rightarrow> ''May''
               | June \<Rightarrow> ''June''
               | July \<Rightarrow> ''July''
               | August \<Rightarrow> ''August''
               | September \<Rightarrow> ''September''
               | October \<Rightarrow> ''October''
               | November \<Rightarrow> ''November''
               | December \<Rightarrow> ''December'')"
    by (cases "month_of today") simp_all
  have dt: "p_date ?p =
             (case month_of today of
                    January \<Rightarrow> ''January''
                  | February \<Rightarrow> ''February''
                  | March \<Rightarrow> ''March''
                  | April \<Rightarrow> ''April''
                  | May \<Rightarrow> ''May''
                  | June \<Rightarrow> ''June''
                  | July \<Rightarrow> ''July''
                  | August \<Rightarrow> ''August''
                  | September \<Rightarrow> ''September''
                  | October \<Rightarrow> ''October''
                  | November \<Rightarrow> ''November''
                  | December \<Rightarrow> ''December'') @ '' ''
               @ [''0123456789'' ! (day today div 10), ''0123456789'' ! (day today mod 10)]
               @ '', ''
               @ [''0123456789'' ! (year today div 1000),
                  ''0123456789'' ! (year today div 100 mod 10),
                  ''0123456789'' ! (year today div 10 mod 10),
                  ''0123456789'' ! (year today mod 10)]"
    using strftime_format [OF assms(4-7)] by (simp only: mn digit_def blog_post.simps)
  show ?thesis
    apply (rule exI [of _ ?p])
    apply (rule exI [of _ ?c'])
    apply (intro conjI)
          apply (rule run)
         apply (rule fetch)
        apply simp
       apply simp
      apply simp
     apply simp
    apply (rule dt)
    done
qed

theorem new_post_round_trip_witness:
  "current_user (ctx_of world4 0) =
       Inr (Some \<lparr>u_id = 1, u_name = ''Ann'', u_email = ''ann@example.com'',
                   u_password = ''pbkdf2:sha256$saltsalt$terces''\<rparr>)
   \<and> pf_title (demo_post_form ''Third'') \<notin> set (map p_title (blog_posts (db (ctx_of world4 0))))
   \<and> (\<exists>new_post c'.
         add_new_post demo_today (Some (demo_post_form ''Third'')) (ctx_of world4 0)
           = (Redirect EP_get_all_posts, c')
       \<and> show_post (p_id new_post) None c' =
           (Render (Post_html new_post
              (filter (\<lambda>cm. c_post_id cm = Some (p_id new_post)) (comments (db c')))), c')
       \<and> p_title new_post = ''Third'' \<and> p_subtitle new_post = ''Sub''
       \<and> p_body new_post = ''Body'' \<and> p_img_url new_post = ''http://img''
       \<and> p_date new_post = ''April 05, 2024'')
   \<and> (\<exists>new_post c'.
         add_new_post \<lparr>year = 2025, month_of = December, day = 31\<rparr>
             (Some (demo_post_form ''Third'')) (ctx_of world4 0)
           = (Redirect EP_get_all_posts, c')
       \<and> show_post (p_id new_post) None c' =
           (Render (Post_html new_post
              (filter (\<lambda>cm. c_post_id cm = Some (p_id new_post)) (comments (db c')))), c')
       \<and> p_title new_post = ''Third''
       \<and> p_date new_post = ''December 31, 2025'')"
proof -
  let ?ann = "\<lparr>u_id = 1, u_name = ''Ann'', u_email = ''ann@example.com'',
                 u_password = ''pbkdf2:sha256$saltsalt$terces''\<rparr>"
  let ?eve = "\<lparr>year = 2025, month_of = December, day = 31\<rparr>"
  have cu: "current_user (ctx_of world4 0) = Inr (Some ?ann)"
    by (rule current_user_world4(1))
  have adm: "u_id ?ann = 1" by simp
  have fresh: "pf_title (demo_post_form ''Third'')
                 \<notin> set (map p_title (blog_posts (db (ctx_of world4 0))))"
    by (simp add: ctx_world4 world4_value demo_post_form_def)
  have d: "1 \<le> day demo_today" "day demo_today \<le> 31" "1000 \<le> year demo_today"
    "year demo_today \<le> 9999"
    by (simp_all add: demo_today_def)
  have e: "1 \<le> day ?eve" "day ?eve \<le> 31" "1000 \<le> year ?eve" "year ?eve \<le> 9999"
    by simp_all
  have april: "\<exists>new_post c'.
         add_new_post demo_today (Some (demo_post_form ''Third'')) (ctx_of world4 0)
           = (Redirect EP_get_all_posts, c')
       \<and> show_post (p_id new_post) None c' =
           (Render (Post_html new_post
              (filter (\<lambda>cm. c_post_id cm = Some (p_id new_post)) (comments (db c')))), c')
       \<and> p_title new_post = ''Third'' \<and> p_subtitle new_post = ''Sub''
       \<and> p_body new_post = ''Body'' \<and> p_img_url new_post = ''http://img''
       \<and> p_date new_post = ''April 05, 2024''"
    using new_post_round_trip [OF cu adm fresh d]
    by (simp add: demo_post_form_def demo_today_def)
  have december: "\<exists>new_post c'.
         add_new_post ?eve (Some (demo_post_form ''Third'')) (ctx_of world4 0)
           = (Redirect EP_get_all_posts, c')
       \<and> show_post (p_id new_post) None c' =
           (Render (Post_html new_post
              (filter (\<lambda>cm. c_post_id cm = Some (p_id new_post)) (comments (db c')))), c')
       \<and> p_title new_post = ''Third''
       \<and> p_date new_post = ''December 31, 2025''"
    using new_post_round_trip [OF cu adm fresh e]
    by (simp add: demo_post_form_def) blast
  show ?thesis using cu fresh april december by blast
qed

end
